theory Spec2Isabelle
  imports Complex_Main "HOL-Library.Sublist"
begin

section \<open>Strings\<close>

text \<open>
  A JavaScript string is modelled as a \<^typ>\<open>string\<close>: a list of code units, each below 256
  (the Latin-1 range). Numbers are modelled as exact reals, not as IEEE doubles. The
  operations below are the library functions the sources call, on that range.
\<close>

definition toLowerChar :: "char \<Rightarrow> char" where
  \<comment> \<open>One code unit of \<open>String.prototype.toLowerCase\<close>: A-Z and the Latin-1 capitals
      (0xC0-0xDE except the multiplication sign 0xD7) move up by 32.\<close>
  "toLowerChar c = (let n = (of_char c :: nat) in
     if (65 \<le> n \<and> n \<le> 90) \<or> (192 \<le> n \<and> n \<le> 222 \<and> n \<noteq> 215)
     then char_of (n + 32) else c)"

definition toLowerCase :: "string \<Rightarrow> string" where
  "toLowerCase s = map toLowerChar s"

definition is_space :: "char \<Rightarrow> bool" where
  \<comment> \<open>The regular expression class \<open>\s\<close> and the characters \<open>trim\<close> strips: TAB, LF, VT,
      FF, CR, space and the no-break space.\<close>
  "is_space c = ((of_char c :: nat) = 9 \<or> (of_char c :: nat) = 10 \<or> (of_char c :: nat) = 11
     \<or> (of_char c :: nat) = 12 \<or> (of_char c :: nat) = 13 \<or> (of_char c :: nat) = 32
     \<or> (of_char c :: nat) = 160)"

definition trim :: "string \<Rightarrow> string" where
  "trim s = rev (dropWhile is_space (rev (dropWhile is_space s)))"

fun str_includes :: "string \<Rightarrow> string \<Rightarrow> bool" where
  \<comment> \<open>\<open>s.includes(t)\<close>: \<open>t\<close> occurs in \<open>s\<close> as a contiguous run.\<close>
  "str_includes [] t = (t = [])"
| "str_includes (c # cs) t = (prefix t (c # cs) \<or> str_includes cs t)"

fun join :: "string \<Rightarrow> string list \<Rightarrow> string" where
  \<comment> \<open>\<open>xs.join(sep)\<close>\<close>
  "join sep [] = []"
| "join sep [x] = x"
| "join sep (x # y # ys) = x @ sep @ join sep (y # ys)"

section \<open>Edit distance (\<open>levenshteinDistance\<close>)\<close>

text \<open>
  The source fills a matrix with \<open>str2.length + 1\<close> rows and \<open>str1.length + 1\<close>
  columns: row 0 is \<open>0, 1, ..., str1.length\<close>, every row \<open>j\<close> starts with \<open>j\<close>, and
  cell \<open>(j, i)\<close> is the minimum of its left neighbour plus one, its upper neighbour plus
  one, and its diagonal neighbour plus the indicator of \<open>str1[i-1] \<noteq> str2[j-1]\<close>. The
  model keeps one row at a time: \<open>lev_cells\<close> is the inner loop over \<open>i\<close>, \<open>lev_rows\<close>
  the outer loop over \<open>j\<close>, and the result is the last cell of the last row.
\<close>

fun lev_cells :: "char \<Rightarrow> string \<Rightarrow> nat list \<Rightarrow> nat \<Rightarrow> nat list" where
  "lev_cells c2 (c1 # s1) (diag # up # prev) left =
     (let v = min (min (left + 1) (up + 1)) (diag + (if c1 = c2 then 0 else 1))
      in v # lev_cells c2 s1 (up # prev) v)"
| "lev_cells c2 s1 prev left = []"

fun lev_rows :: "string \<Rightarrow> string \<Rightarrow> nat \<Rightarrow> nat list \<Rightarrow> nat list" where
  "lev_rows str1 [] j row = row"
| "lev_rows str1 (c2 # s2) j row = lev_rows str1 s2 (Suc j) (Suc j # lev_cells c2 str1 row (Suc j))"

definition levenshteinDistance :: "string \<Rightarrow> string \<Rightarrow> nat" where
  "levenshteinDistance str1 str2 = last (lev_rows str1 str2 0 [0 ..< Suc (length str1)])"

section \<open>Field similarity\<close>

definition strip_separators :: "string \<Rightarrow> string" where
  \<comment> \<open>\<open>.replace(/[_-]/g, "")\<close>\<close>
  "strip_separators s = filter (\<lambda>c. c \<noteq> CHR ''_'' \<and> c \<noteq> CHR ''-'') s"

definition normalize_field :: "string \<Rightarrow> string" where
  "normalize_field s = strip_separators (toLowerCase s)"

definition commonWords :: "string list" where
  "commonWords = [''id'', ''name'', ''email'', ''phone'', ''address'', ''date'', ''time'',
     ''user'', ''customer'', ''order'']"

definition shares_common_word :: "string \<Rightarrow> string \<Rightarrow> bool" where
  \<comment> \<open>the loop over \<open>commonWords\<close>: some word occurs in both strings\<close>
  "shares_common_word f1 f2 = list_ex (\<lambda>w. str_includes f1 w \<and> str_includes f2 w) commonWords"


definition processor_calculateFieldSimilarity :: "string \<Rightarrow> string \<Rightarrow> real" where
  \<comment> \<open>the private method of the instruction processor: no edit-distance fallback\<close>
  "processor_calculateFieldSimilarity field1 field2 =
     (let f1 = normalize_field field1; f2 = normalize_field field2 in
      if f1 = f2 then 1
      else if str_includes f1 f2 \<or> str_includes f2 f1 then 8 / 10
      else if shares_common_word f1 f2 then 6 / 10
      else 0)"

section \<open>The mapping store\<close>

text \<open>
  \<open>DynamicMapping extends MappingSuggestion\<close>; the argument of \<open>addMapping\<close> is a
  \<open>DynamicMapping\<close> without \<open>id\<close>, \<open>created_at\<close> and \<open>updated_at\<close>, so these three fields
  come last. \<open>transformation_type\<close> is a string: the command executor stores the word
  the instruction gave, unchecked. The optional fields \<open>sample_transformation\<close>,
  \<open>original_mapping\<close> and \<open>conflict_reason\<close>, which the store only copies, are left out.
\<close>

datatype mapping_status = Active | Pending | Conflict | Disabled

record MappingSuggestion =
  source_field :: string
  target_field :: string
  transformation_type :: string
  confidence :: real
  reasoning :: string
  transformation_logic :: string
  potential_issues :: "string list"

record NewMapping = MappingSuggestion +
  status :: mapping_status
  user_modified :: bool
  user_command :: "string option"

record DynamicMapping = NewMapping +
  m_id :: string
  created_at :: string
  updated_at :: string

datatype conflict_type = Duplicate_source | Duplicate_target | Circular_reference | Type_mismatch

record MappingConflict =
  c_id :: string
  c_type :: conflict_type
  description :: string
  affected_mappings :: "string list"
  suggested_resolution :: string

record MappingStore =
  mappings :: "DynamicMapping list"
  conflicts :: "MappingConflict list"
  documentId :: "string option"

text \<open>\<open>Partial<DynamicMapping>\<close>: every field may be absent.\<close>

record MappingUpdate =
  u_source_field :: "string option"
  u_target_field :: "string option"
  u_transformation_type :: "string option"
  u_confidence :: "real option"
  u_reasoning :: "string option"
  u_transformation_logic :: "string option"
  u_potential_issues :: "string list option"
  u_status :: "mapping_status option"
  u_user_modified :: "bool option"
  u_user_command :: "string option"
  u_id :: "string option"
  u_created_at :: "string option"
  u_updated_at :: "string option"

definition no_update :: MappingUpdate where
  "no_update = \<lparr>u_source_field = None, u_target_field = None, u_transformation_type = None,
     u_confidence = None, u_reasoning = None, u_transformation_logic = None,
     u_potential_issues = None, u_status = None, u_user_modified = None,
     u_user_command = None, u_id = None, u_created_at = None, u_updated_at = None\<rparr>"

definition or_else :: "'a option \<Rightarrow> 'a \<Rightarrow> 'a" where
  "or_else u old = (case u of None \<Rightarrow> old | Some v \<Rightarrow> v)"

definition spread :: "DynamicMapping \<Rightarrow> MappingUpdate \<Rightarrow> DynamicMapping" where
  \<comment> \<open>the object spread \<open>{ ...mapping, ...updates }\<close>\<close>
  "spread m u = m\<lparr>
     source_field := or_else (u_source_field u) (source_field m),
     target_field := or_else (u_target_field u) (target_field m),
     transformation_type := or_else (u_transformation_type u) (transformation_type m),
     confidence := or_else (u_confidence u) (confidence m),
     reasoning := or_else (u_reasoning u) (reasoning m),
     transformation_logic := or_else (u_transformation_logic u) (transformation_logic m),
     potential_issues := or_else (u_potential_issues u) (potential_issues m),
     status := or_else (u_status u) (status m),
     user_modified := or_else (u_user_modified u) (user_modified m),
     user_command := (case u_user_command u of None \<Rightarrow> user_command m | Some c \<Rightarrow> Some c),
     m_id := or_else (u_id u) (m_id m),
     created_at := or_else (u_created_at u) (created_at m),
     updated_at := or_else (u_updated_at u) (updated_at m)\<rparr>"

subsection \<open>Validation\<close>

text \<open>
  The JavaScript \<open>Map\<close> keeps its keys in the order of their first insertion; it is an
  association list here. \<open>map_set\<close> replaces the value of a key in place and appends a
  new key at the end.
\<close>

fun map_get :: "(string \<times> string list) list \<Rightarrow> string \<Rightarrow> string list option" where
  "map_get [] k = None"
| "map_get ((k', v) # kvs) k = (if k' = k then Some v else map_get kvs k)"

fun map_set :: "(string \<times> string list) list \<Rightarrow> string \<Rightarrow> string list \<Rightarrow> (string \<times> string list) list" where
  "map_set [] k v = [(k, v)]"
| "map_set ((k', v') # kvs) k v = (if k' = k then (k, v) # kvs else (k', v') # map_set kvs k v)"

definition count_field :: "(DynamicMapping \<Rightarrow> string) \<Rightarrow> (string \<times> string list) list \<Rightarrow> DynamicMapping
    \<Rightarrow> (string \<times> string list) list" where
  \<comment> \<open>the body of the two \<open>mappings.forEach\<close> loops that fill the counts\<close>
  "count_field field counts mapping =
     (if status mapping = Active
      then (let existing = (case map_get counts (field mapping) of None \<Rightarrow> [] | Some ids \<Rightarrow> ids)
            in map_set counts (field mapping) (existing @ [m_id mapping]))
      else counts)"

definition field_counts :: "(DynamicMapping \<Rightarrow> string) \<Rightarrow> DynamicMapping list \<Rightarrow> (string \<times> string list) list" where
  "field_counts field ms = foldl (count_field field) [] ms"

definition source_conflict :: "string \<Rightarrow> string list \<Rightarrow> MappingConflict" where
  "source_conflict sourceField mappingIds =
     \<lparr>c_id = ''conflict-duplicate-source-'' @ sourceField,
      c_type = Duplicate_source,
      description = ''Multiple mappings found for source field '' @ [CHR 0x22] @ sourceField @ [CHR 0x22],
      affected_mappings = mappingIds,
      suggested_resolution = ''Keep the most recent mapping or merge the transformations''\<rparr>"

definition target_conflict :: "string \<Rightarrow> string list \<Rightarrow> MappingConflict" where
  "target_conflict targetField mappingIds =
     \<lparr>c_id = ''conflict-duplicate-target-'' @ targetField,
      c_type = Duplicate_target,
      description = ''Multiple mappings found for target field '' @ [CHR 0x22] @ targetField @ [CHR 0x22],
      affected_mappings = mappingIds,
      suggested_resolution = ''Combine source fields or use different target fields''\<rparr>"

definition duplicates :: "(string \<Rightarrow> string list \<Rightarrow> MappingConflict) \<Rightarrow> (string \<times> string list) list
    \<Rightarrow> MappingConflict list" where
  \<comment> \<open>the two \<open>counts.forEach\<close> loops that push a conflict for every key with more than one id\<close>
  "duplicates mk counts = map (\<lambda>(k, ids). mk k ids) (filter (\<lambda>(k, ids). length ids > 1) counts)"

definition validateMappings :: "MappingStore \<Rightarrow> MappingConflict list \<times> MappingStore" where
  "validateMappings s =
     (let found = duplicates source_conflict (field_counts source_field (mappings s))
                @ duplicates target_conflict (field_counts target_field (mappings s))
      in (found, s\<lparr>conflicts := found\<rparr>))"

subsection \<open>Mutations\<close>

text \<open>
  The clock and the identifier generator (\<open>Date.now()\<close>, \<open>Math.random()\<close>) are outside
  the store: the current time \<open>now\<close> and the identifier \<open>new_id\<close> the generator returns are
  arguments. All clock reads of one call return the same instant.
\<close>

definition updateMapping :: "string \<Rightarrow> string \<Rightarrow> MappingUpdate \<Rightarrow> MappingStore \<Rightarrow> MappingStore" where
  "updateMapping now ident updates s =
     snd (validateMappings (s\<lparr>mappings :=
       map (\<lambda>mapping. if m_id mapping = ident
                        then (spread mapping updates)\<lparr>updated_at := now, user_modified := True\<rparr>
                        else mapping) (mappings s)\<rparr>))"

definition addMapping :: "string \<Rightarrow> string \<Rightarrow> NewMapping \<Rightarrow> MappingStore \<Rightarrow> string \<times> MappingStore" where
  "addMapping now new_id mapping s =
     (let newMapping = \<lparr>source_field = source_field mapping, target_field = target_field mapping,
            transformation_type = transformation_type mapping, confidence = confidence mapping,
            reasoning = reasoning mapping, transformation_logic = transformation_logic mapping,
            potential_issues = potential_issues mapping, status = status mapping,
            user_modified = user_modified mapping, user_command = user_command mapping,
            m_id = new_id, created_at = now, updated_at = now\<rparr>
      in (new_id, snd (validateMappings (s\<lparr>mappings := mappings s @ [newMapping]\<rparr>))))"

definition removeMapping :: "string \<Rightarrow> MappingStore \<Rightarrow> MappingStore" where
  "removeMapping ident s =
     s\<lparr>mappings := filter (\<lambda>mapping. m_id mapping \<noteq> ident) (mappings s),
       conflicts := filter (\<lambda>conflict. ident \<notin> set (affected_mappings conflict)) (conflicts s)\<rparr>"

datatype resolution = Accept | Reject | Modify

definition resolveConflict :: "string \<Rightarrow> string \<Rightarrow> resolution \<Rightarrow> MappingUpdate option \<Rightarrow> MappingStore
    \<Rightarrow> MappingStore" where
  "resolveConflict now conflictId res data s =
     (case find (\<lambda>c. c_id c = conflictId) (conflicts s) of
        None \<Rightarrow> s
      | Some conflict \<Rightarrow>
          (let affected = (\<lambda>mapping. m_id mapping \<in> set (affected_mappings conflict));
               updatedMappings =
                 (case (res, data) of
                    (Accept, _) \<Rightarrow>
                      map (\<lambda>mapping. if affected mapping then mapping\<lparr>status := Active\<rparr> else mapping)
                        (mappings s)
                  | (Reject, _) \<Rightarrow>
                      map (\<lambda>mapping. if affected mapping then mapping\<lparr>status := Disabled\<rparr> else mapping)
                        (mappings s)
                  | (Modify, Some d) \<Rightarrow>
                      map (\<lambda>mapping. if affected mapping
                             then (spread mapping d)\<lparr>status := Active, updated_at := now\<rparr>
                             else mapping) (mappings s)
                  | (Modify, None) \<Rightarrow> mappings s)
           in s\<lparr>mappings := updatedMappings,
                conflicts := filter (\<lambda>c. c_id c \<noteq> conflictId) (conflicts s)\<rparr>))"

definition clearMappings :: "MappingStore \<Rightarrow> MappingStore" where
  "clearMappings s = \<lparr>mappings = [], conflicts = [], documentId = None\<rparr>"

definition getMappingByFields :: "string \<Rightarrow> string option \<Rightarrow> MappingStore \<Rightarrow> DynamicMapping option" where
  "getMappingByFields sourceField targetField s =
     find (\<lambda>mapping. case targetField of
              Some t \<Rightarrow> if t \<noteq> [] then source_field mapping = sourceField \<and> target_field mapping = t
                        else source_field mapping = sourceField
            | None \<Rightarrow> source_field mapping = sourceField) (mappings s)"

definition exportMappings :: "MappingStore \<Rightarrow> DynamicMapping list" where
  "exportMappings s = filter (\<lambda>mapping. status mapping = Active) (mappings s)"

section \<open>Regular expressions\<close>

text \<open>
  The fragment of JavaScript regular expressions the sources use, with the semantics of a
  backtracking matcher: \<open>rmatch r s caps\<close> lists every way \<open>r\<close> can match a prefix of
  \<open>s\<close>, as the rest of the input and the capture groups, in the order the matcher tries
  them (a greedy \<open>+\<close> the longest run first, \<open>?\<close> the present branch first, an alternative
  left to right). Every expression of the sources carries the flag \<open>i\<close>: a literal
  matches a character whose lower case it is (the literals are in lower case).
\<close>

datatype rx =
    Lit string                 \<comment> \<open>a literal run of characters\<close>
  | Cls "char \<Rightarrow> bool"          \<comment> \<open>one character of a class\<close>
  | Plus "char \<Rightarrow> bool"         \<comment> \<open>\<open>c+\<close>: one or more characters of a class, greedy\<close>
  | Opt rx                     \<comment> \<open>\<open>r?\<close>\<close>
  | Seq rx rx
  | Alt rx rx                  \<comment> \<open>\<open>r|r\<close>\<close>
  | Grp nat rx                 \<comment> \<open>capture group number \<open>n\<close>\<close>

type_synonym captures = "nat \<Rightarrow> string option"

fun rmatch :: "rx \<Rightarrow> string \<Rightarrow> captures \<Rightarrow> (string \<times> captures) list" where
  "rmatch (Lit l) s caps =
     (if length l \<le> length s \<and> map toLowerChar (take (length l) s) = l
      then [(drop (length l) s, caps)] else [])"
| "rmatch (Cls p) s caps = (case s of [] \<Rightarrow> [] | c # cs \<Rightarrow> if p c then [(cs, caps)] else [])"
| "rmatch (Plus p) s caps = map (\<lambda>n. (drop n s, caps)) (rev [1 ..< Suc (length (takeWhile p s))])"
| "rmatch (Opt r) s caps = rmatch r s caps @ [(s, caps)]"
| "rmatch (Seq r1 r2) s caps = concat (map (\<lambda>(s', caps'). rmatch r2 s' caps') (rmatch r1 s caps))"
| "rmatch (Alt r1 r2) s caps = rmatch r1 s caps @ rmatch r2 s caps"
| "rmatch (Grp n r) s caps =
     map (\<lambda>(s', caps'). (s', caps'(n \<mapsto> take (length s - length s') s))) (rmatch r s caps)"

fun seqs :: "rx list \<Rightarrow> rx" where
  "seqs [] = Lit []"
| "seqs [r] = r"
| "seqs (r # rs) = Seq r (seqs rs)"

fun alts :: "rx list \<Rightarrow> rx" where
  "alts [] = Cls (\<lambda>c. False)"
| "alts [r] = r"
| "alts (r # rs) = Alt r (alts rs)"

fun rsearch :: "rx \<Rightarrow> string \<Rightarrow> captures option" where
  \<comment> \<open>\<open>s.match(r)\<close> without the flag \<open>g\<close>: the first match at the leftmost position that has one\<close>
  "rsearch r s =
     (case rmatch r s Map.empty of
        (rest, caps) # others \<Rightarrow> Some caps
      | [] \<Rightarrow> (case s of [] \<Rightarrow> None | c # cs \<Rightarrow> rsearch r cs))"

definition is_quote :: "char \<Rightarrow> bool" where
  \<comment> \<open>the class of the double quote, the backtick and the single quote\<close>
  "is_quote c = (c = CHR 0x22 \<or> c = CHR 0x60 \<or> c = CHR 0x27)"

definition is_field_char :: "char \<Rightarrow> bool" where
  \<comment> \<open>the negated class: neither a quote nor white space\<close>
  "is_field_char c = (\<not> is_quote c \<and> \<not> is_space c)"

definition is_digit :: "char \<Rightarrow> bool" where
  "is_digit c = (48 \<le> (of_char c :: nat) \<and> (of_char c :: nat) \<le> 57)"

definition is_word_char :: "char \<Rightarrow> bool" where
  \<comment> \<open>the class \<open>[a-z_]\<close> under the flag \<open>i\<close>\<close>
  "is_word_char c = (c = CHR ''_'' \<or> (97 \<le> (of_char (toLowerChar c) :: nat) \<and> (of_char (toLowerChar c) :: nat) \<le> 122))"

definition spaces :: rx where "spaces = Plus is_space"
definition quote_opt :: rx where "quote_opt = Opt (Cls is_quote)"
definition field_token :: "nat \<Rightarrow> rx" where
  \<comment> \<open>a field name in optional quotes, captured as group \<open>n\<close>\<close>
  "field_token n = seqs [quote_opt, Grp n (Plus is_field_char), quote_opt]"

section \<open>The command parser\<close>

datatype command_type = Create | Update | Delete | Modify_transformation | Set_confidence | Unknown

record MappingCommand =
  cmd_type :: command_type
  sourceField :: "string option"
  targetField :: "string option"
  transformationType :: "string option"
  cmd_confidence :: "real option"
  originalCommand :: string

record CommandParseResult =
  command :: "MappingCommand option"
  parse_confidence :: real
  ambiguities :: "string list"
  parse_suggestions :: "string list"

text \<open>What a pattern's \<open>extract\<close> returns; \<open>confidence\<close> is still the matched text.\<close>

record extracted =
  ex_sourceField :: "string option"
  ex_targetField :: "string option"
  ex_transformationType :: "string option"
  ex_confidence :: "string option"

definition extract_source_target :: "captures \<Rightarrow> extracted" where
  "extract_source_target m = \<lparr>ex_sourceField = m 1, ex_targetField = m 2,
     ex_transformationType = None, ex_confidence = None\<rparr>"

definition extract_source :: "captures \<Rightarrow> extracted" where
  "extract_source m = \<lparr>ex_sourceField = m 1, ex_targetField = None,
     ex_transformationType = None, ex_confidence = None\<rparr>"

definition extract_transformation :: "captures \<Rightarrow> extracted" where
  "extract_transformation m = \<lparr>ex_sourceField = m 1, ex_targetField = None,
     ex_transformationType = m 2, ex_confidence = None\<rparr>"

definition extract_confidence :: "captures \<Rightarrow> extracted" where
  "extract_confidence m = \<lparr>ex_sourceField = m 1, ex_targetField = None,
     ex_transformationType = None, ex_confidence = m 2\<rparr>"

definition map_pattern :: rx where
  "map_pattern = seqs [Lit ''map'', spaces, Opt (seqs [Lit ''field'', spaces]), field_token 1,
     spaces, Lit ''to'', spaces, field_token 2]"

definition create_pattern :: rx where
  "create_pattern = seqs [Lit ''create'', spaces, Opt (seqs [Lit ''a'', spaces]), Lit ''mapping'', spaces,
     Opt (seqs [Lit ''from'', spaces]), field_token 1, spaces, Opt (seqs [Lit ''to'', spaces]), field_token 2]"

definition connect_pattern :: rx where
  "connect_pattern = seqs [Lit ''connect'', spaces, field_token 1, spaces, alts [Lit ''with'', Lit ''to''],
     spaces, field_token 2]"

definition update_pattern :: rx where
  "update_pattern = seqs [alts [Lit ''update'', Lit ''change'', Lit ''modify''], spaces,
     Opt (seqs [Lit ''the'', spaces]), Lit ''mapping'', spaces, Opt (seqs [Lit ''for'', spaces]),
     field_token 1, spaces, Lit ''to'', spaces, field_token 2]"

definition delete_pattern :: rx where
  "delete_pattern = seqs [alts [Lit ''delete'', Lit ''remove'', Lit ''unmap''], spaces,
     Opt (seqs [Lit ''the'', spaces]), Lit ''mapping'', spaces, Opt (seqs [Lit ''for'', spaces]),
     field_token 1]"

definition transformation_pattern :: rx where
  "transformation_pattern = seqs [alts [Lit ''set'', Lit ''change''], spaces,
     Opt (seqs [Lit ''the'', spaces]), Lit ''transformation'', spaces, Opt (seqs [Lit ''type'', spaces]),
     Opt (seqs [Lit ''for'', spaces]), field_token 1, spaces, Lit ''to'', spaces, Grp 2 (Plus is_word_char)]"

definition confidence_pattern :: rx where
  "confidence_pattern = seqs [alts [Lit ''set'', Lit ''change''], spaces,
     Opt (seqs [Lit ''the'', spaces]), Lit ''confidence'', spaces, Opt (seqs [Lit ''for'', spaces]),
     field_token 1, spaces, Lit ''to'', spaces,
     Grp 2 (seqs [Plus is_digit, Opt (seqs [Lit ''.'', Plus is_digit])])]"

definition COMMAND_PATTERNS :: "(rx \<times> command_type \<times> (captures \<Rightarrow> extracted)) list" where
  "COMMAND_PATTERNS =
     [(map_pattern, Create, extract_source_target),
      (create_pattern, Create, extract_source_target),
      (connect_pattern, Create, extract_source_target),
      (update_pattern, Update, extract_source_target),
      (delete_pattern, Delete, extract_source),
      (transformation_pattern, Modify_transformation, extract_transformation),
      (confidence_pattern, Set_confidence, extract_confidence)]"

fun first_pattern :: "(rx \<times> command_type \<times> (captures \<Rightarrow> extracted)) list \<Rightarrow> string
    \<Rightarrow> (command_type \<times> extracted) option" where
  \<comment> \<open>the loop over the patterns: the first one that matches anywhere in the command\<close>
  "first_pattern [] s = None"
| "first_pattern ((r, t, extract) # ps) s =
     (case rsearch r s of Some m \<Rightarrow> Some (t, extract m) | None \<Rightarrow> first_pattern ps s)"

fun findSimilarFields :: "string \<Rightarrow> string list \<Rightarrow> string list" where
  "findSimilarFields target field_list =
     (let targetLower = toLowerCase target in
      take 3 (filter (\<lambda>field. let fieldLower = toLowerCase field in
                 str_includes fieldLower targetLower \<or> str_includes targetLower fieldLower
                 \<or> levenshteinDistance targetLower fieldLower \<le> 2) field_list))"

definition unique :: "'a list \<Rightarrow> 'a list" where
  \<comment> \<open>\<open>[...new Set(xs)]\<close>: the first occurrence of every element, in order\<close>
  "unique xs = rev (remdups (rev xs))"

definition parser_extractFieldMentions :: "string \<Rightarrow> string list \<Rightarrow> string list \<Rightarrow> string list" where
  "parser_extractFieldMentions cmd source target =
     unique (filter (\<lambda>field. str_includes (toLowerCase cmd) (toLowerCase field)) (source @ target))"

definition digit_value :: "char \<Rightarrow> nat" where
  "digit_value c = of_char c - 48"

definition digits_value :: "string \<Rightarrow> nat" where
  "digits_value ds = foldl (\<lambda>n c. 10 * n + digit_value c) 0 ds"

definition parseFloat :: "string \<Rightarrow> real" where
  \<comment> \<open>\<open>Number.parseFloat\<close> on the text the confidence pattern captures: digits, then
      optionally a point and digits\<close>
  "parseFloat t =
     (let whole = takeWhile is_digit t; rest = dropWhile is_digit t in
      case rest of
        [] \<Rightarrow> real (digits_value whole)
      | point # fraction \<Rightarrow>
          real (digits_value whole) + real (digits_value fraction) / 10 ^ length fraction)"

definition resolve_field :: "string \<Rightarrow> string option \<Rightarrow> string list
    \<Rightarrow> string option \<times> string list \<times> string list" where
  \<comment> \<open>the two blocks "validate field names and suggest corrections", one for the source
      and one for the target: the field as resolved, the ambiguities and the suggestions
      the block pushes\<close>
  "resolve_field label token field_list =
     (case token of
        None \<Rightarrow> (None, [], [])
      | Some t \<Rightarrow>
          if t = [] then (Some t, [], [])
          else (case find (\<lambda>f. toLowerCase f = toLowerCase t) field_list of
                  Some exactMatch \<Rightarrow> (Some exactMatch, [], [])
                | None \<Rightarrow>
                    (let similarFields = findSimilarFields t field_list in
                     if length similarFields > 0
                     then (Some t,
                           [label @ '' field '' @ [CHR 0x22] @ t @ [CHR 0x22] @ '' not found''],
                           [''Did you mean: '' @ join '', '' similarFields @ ''?''])
                     else (Some t, [], []))))"

definition validate_confidence :: "real option \<Rightarrow> real option \<times> string list" where
  "validate_confidence c =
     (case c of
        None \<Rightarrow> (None, [])
      | Some v \<Rightarrow>
          (let v' = (if v > 1 then v / 100 else v) in
           (Some v', if v' < 0 \<or> v' > 1
                     then [''Confidence must be between 0 and 1 (or 0% and 100%)''] else [])))"

definition parseCommand :: "string \<Rightarrow> string list \<Rightarrow> string list \<Rightarrow> CommandParseResult" where
  "parseCommand cmd source target =
     (let normalizedCommand = toLowerCase (trim cmd) in
      case first_pattern COMMAND_PATTERNS normalizedCommand of
        Some (t, ex) \<Rightarrow>
          (let (src, amb_s, sug_s) = resolve_field ''Source'' (ex_sourceField ex) source;
               (tgt, amb_t, sug_t) = resolve_field ''Target'' (ex_targetField ex) target;
               (conf, amb_c) = validate_confidence (map_option parseFloat (ex_confidence ex));
               ambs = amb_s @ amb_t @ amb_c
           in \<lparr>command = Some \<lparr>cmd_type = t, sourceField = src, targetField = tgt,
                   transformationType = ex_transformationType ex, cmd_confidence = conf,
                   originalCommand = cmd\<rparr>,
                parse_confidence = (if length ambs = 0 then 9 / 10 else 6 / 10),
                ambiguities = ambs,
                parse_suggestions = sug_s @ sug_t\<rparr>)
      | None \<Rightarrow>
          (let fieldMentions = parser_extractFieldMentions cmd source target in
           if length fieldMentions > 0
           then \<lparr>command = Some \<lparr>cmd_type = Unknown, sourceField = None, targetField = None,
                     transformationType = None, cmd_confidence = None, originalCommand = cmd\<rparr>,
                  parse_confidence = 3 / 10,
                  ambiguities = [''Command not recognized''],
                  parse_suggestions =
                    [''Try: '' @ [CHR 0x22] @ ''Map [source field] to [target field]'' @ [CHR 0x22],
                     ''Try: '' @ [CHR 0x22] @ ''Delete mapping for [field name]'' @ [CHR 0x22],
                     ''Try: '' @ [CHR 0x22] @ ''Change transformation for [field] to [type]'' @ [CHR 0x22],
                     ''Detected fields: '' @ join '', '' fieldMentions]\<rparr>
           else \<lparr>command = None,
                  parse_confidence = 0,
                  ambiguities = [''No mapping command detected''],
                  parse_suggestions =
                    [''Try: '' @ [CHR 0x22] @ ''Map field1 to field2'' @ [CHR 0x22],
                     ''Try: '' @ [CHR 0x22] @ ''Delete mapping for field1'' @ [CHR 0x22],
                     ''Try: '' @ [CHR 0x22] @ ''Update mapping for field1 to field3'' @ [CHR 0x22]]\<rparr>))"

section \<open>The instruction processor\<close>

datatype change_type = Created | Updated | Deleted | Modified

record MappingChange =
  ch_type :: change_type
  mappingId :: "string option"
  ch_sourceField :: string
  ch_targetField :: "string option"
  details :: string

record AIProcessingResult =
  success :: bool
  message :: string
  appliedChanges :: "MappingChange list"
  suggestions :: "string list option"
  needsClarification :: "bool option"
  clarificationQuestion :: "string option"

record instruction_context =
  ctx_sourceFields :: "string list"
  ctx_targetFields :: "string list"
  ctx_currentMappings :: "DynamicMapping list"

text \<open>
  A thrown exception is a value: a call returns \<open>Inl\<close> the error or \<open>Inr\<close> its result,
  next to the state it leaves. The processor reaches the store through
  \<open>useMappingStore.getState()\<close>; the three store functions it calls are the fields of a
  \<open>store_api\<close>, each of which may throw.
\<close>

datatype js_error = Error (error_message: string)

record 'st store_api =
  api_updateMapping :: "string \<Rightarrow> MappingUpdate \<Rightarrow> 'st \<Rightarrow> (js_error + unit) \<times> 'st"
  api_addMapping :: "NewMapping \<Rightarrow> 'st \<Rightarrow> (js_error + string) \<times> 'st"
  api_removeMapping :: "string \<Rightarrow> 'st \<Rightarrow> (js_error + unit) \<times> 'st"

text \<open>
  The store of this repository behind that interface. Its state is the store and the
  number of calls made so far; the environment gives the clock reading and the generated
  identifier of every call. None of its functions throws.
\<close>

record environment =
  env_now :: "nat \<Rightarrow> string"
  env_id :: "nat \<Rightarrow> string"

record world =
  w_store :: MappingStore
  w_calls :: nat

definition zustand_api :: "environment \<Rightarrow> world store_api" where
  "zustand_api env =
     \<lparr>api_updateMapping = (\<lambda>ident updates w.
        (Inr (), \<lparr>w_store = updateMapping (env_now env (w_calls w)) ident updates (w_store w),
                  w_calls = Suc (w_calls w)\<rparr>)),
      api_addMapping = (\<lambda>mapping w.
        (let (new_id, s') = addMapping (env_now env (w_calls w)) (env_id env (w_calls w)) mapping (w_store w)
         in (Inr new_id, \<lparr>w_store = s', w_calls = Suc (w_calls w)\<rparr>))),
      api_removeMapping = (\<lambda>ident w.
        (Inr (), \<lparr>w_store = removeMapping ident (w_store w), w_calls = Suc (w_calls w)\<rparr>))\<rparr>"

text \<open>
  The three pictographs of the messages lie outside the range of \<^typ>\<open>char\<close>; each stands
  here as the bytes of its UTF-8 encoding.
\<close>

definition check_mark :: string where "check_mark = [CHR 0xE2, CHR 0x9C, CHR 0x85]"
definition cross_mark :: string where "cross_mark = [CHR 0xE2, CHR 0x9D, CHR 0x8C]"
definition right_arrow :: string where "right_arrow = [CHR 0xE2, CHR 0x86, CHR 0x92]"

definition digit_char :: "nat \<Rightarrow> char" where
  "digit_char d = ''0123456789'' ! (d mod 10)"

fun decimal_digits :: "nat \<Rightarrow> string \<Rightarrow> string" where
  \<comment> \<open>the decimal digits of \<open>n\<close>, the last one first, put in front of \<open>acc\<close>\<close>
  "decimal_digits n acc =
     (if n div 10 = 0 then digit_char n # acc
      else decimal_digits (n div 10) (digit_char n # acc))"

definition number_text :: "nat \<Rightarrow> string" where
  \<comment> \<open>a natural number in a template string\<close>
  "number_text n = decimal_digits n []"

definition integer_text :: "int \<Rightarrow> string" where
  "integer_text i = (if 0 \<le> i then number_text (nat i) else CHR ''-'' # number_text (nat (- i)))"

definition percent :: "real \<Rightarrow> string" where
  \<comment> \<open>the text of \<open>Math.round(confidence * 100)\<close>\<close>
  "percent c = integer_text \<lfloor>c * 100 + 1 / 2\<rfloor>"

definition truthy :: "string option \<Rightarrow> bool" where
  \<comment> \<open>an optional string in a condition: present and not empty\<close>
  "truthy x = (case x of None \<Rightarrow> False | Some v \<Rightarrow> v \<noteq> [])"

definition find_active :: "DynamicMapping list \<Rightarrow> string \<Rightarrow> DynamicMapping option" where
  \<comment> \<open>\<open>currentMappings.find((m) => m.source_field === sourceField && m.status === "active")\<close>\<close>
  "find_active currentMappings src = find (\<lambda>m. source_field m = src \<and> status m = Active) currentMappings"

definition could_not_execute :: AIProcessingResult where
  "could_not_execute = \<lparr>success = False, message = cross_mark @ '' Could not execute command'',
     appliedChanges = [], suggestions = None, needsClarification = None,
     clarificationQuestion = None\<rparr>"

definition succeeded :: "string \<Rightarrow> MappingChange \<Rightarrow> AIProcessingResult" where
  "succeeded msg change = \<lparr>success = True, message = msg, appliedChanges = [change],
     suggestions = None, needsClarification = None, clarificationQuestion = None\<rparr>"

definition execute_create :: "'st store_api \<Rightarrow> MappingCommand \<Rightarrow> DynamicMapping list \<Rightarrow> 'st
    \<Rightarrow> (js_error + AIProcessingResult) \<times> 'st" where
  "execute_create api cmd currentMappings st =
     (case (sourceField cmd, targetField cmd) of
        (Some src, Some tgt) \<Rightarrow>
          if src \<noteq> [] \<and> tgt \<noteq> [] then
            (case find_active currentMappings src of
               Some existingMapping \<Rightarrow>
                 (case api_updateMapping api (m_id existingMapping)
                         (no_update\<lparr>u_target_field := Some tgt,
                            u_user_command := Some (originalCommand cmd),
                            u_reasoning := Some (''Updated via AI command: '' @ [CHR 0x22]
                               @ originalCommand cmd @ [CHR 0x22])\<rparr>) st of
                    (Inl e, st') \<Rightarrow> (Inl e, st')
                  | (Inr u, st') \<Rightarrow>
                      (Inr (succeeded
                         (check_mark @ '' Updated mapping: '' @ src @ '' '' @ right_arrow @ '' '' @ tgt)
                         \<lparr>ch_type = Updated, mappingId = Some (m_id existingMapping),
                          ch_sourceField = src, ch_targetField = Some tgt,
                          details = ''Updated mapping from '' @ target_field existingMapping
                             @ '' to '' @ tgt\<rparr>), st'))
             | None \<Rightarrow>
                 (case api_addMapping api
                         \<lparr>source_field = src, target_field = tgt,
                          transformation_type = ''direct_mapping'', confidence = 85 / 100,
                          reasoning = ''AI-created mapping via command: '' @ [CHR 0x22]
                             @ originalCommand cmd @ [CHR 0x22],
                          transformation_logic = src @ '' -> '' @ tgt,
                          potential_issues = [], status = Active, user_modified = True,
                          user_command = Some (originalCommand cmd)\<rparr> st of
                    (Inl e, st') \<Rightarrow> (Inl e, st')
                  | (Inr newMappingId, st') \<Rightarrow>
                      (Inr (succeeded
                         (check_mark @ '' Created mapping: '' @ src @ '' '' @ right_arrow @ '' '' @ tgt)
                         \<lparr>ch_type = Created, mappingId = Some newMappingId,
                          ch_sourceField = src, ch_targetField = Some tgt,
                          details = ''Created new mapping''\<rparr>), st')))
          else (Inr could_not_execute, st)
      | _ \<Rightarrow> (Inr could_not_execute, st))"

definition execute_delete :: "'st store_api \<Rightarrow> MappingCommand \<Rightarrow> DynamicMapping list \<Rightarrow> 'st
    \<Rightarrow> (js_error + AIProcessingResult) \<times> 'st" where
  "execute_delete api cmd currentMappings st =
     (case sourceField cmd of
        Some src \<Rightarrow>
          if src \<noteq> [] then
            (case find_active currentMappings src of
               Some existingMapping \<Rightarrow>
                 (case api_removeMapping api (m_id existingMapping) st of
                    (Inl e, st') \<Rightarrow> (Inl e, st')
                  | (Inr u, st') \<Rightarrow>
                      (Inr (succeeded (check_mark @ '' Deleted mapping for: '' @ src)
                         \<lparr>ch_type = Deleted, mappingId = Some (m_id existingMapping),
                          ch_sourceField = src, ch_targetField = Some (target_field existingMapping),
                          details = ''Deleted mapping''\<rparr>), st'))
             | None \<Rightarrow>
                 (Inr \<lparr>success = False,
                       message = cross_mark @ '' No mapping found for '' @ [CHR 0x22] @ src @ [CHR 0x22],
                       appliedChanges = [],
                       suggestions = Some [''Available source fields: ''
                          @ join '', '' (map source_field currentMappings)],
                       needsClarification = None, clarificationQuestion = None\<rparr>, st))
          else (Inr could_not_execute, st)
      | None \<Rightarrow> (Inr could_not_execute, st))"

definition execute_modify_transformation :: "'st store_api \<Rightarrow> MappingCommand \<Rightarrow> DynamicMapping list
    \<Rightarrow> 'st \<Rightarrow> (js_error + AIProcessingResult) \<times> 'st" where
  "execute_modify_transformation api cmd currentMappings st =
     (case (sourceField cmd, transformationType cmd) of
        (Some src, Some tt) \<Rightarrow>
          if src \<noteq> [] \<and> tt \<noteq> [] then
            (case find_active currentMappings src of
               Some existingMapping \<Rightarrow>
                 (case api_updateMapping api (m_id existingMapping)
                         (no_update\<lparr>u_transformation_type := Some tt,
                            u_user_command := Some (originalCommand cmd),
                            u_reasoning := Some (''Transformation updated via AI: '' @ [CHR 0x22]
                               @ originalCommand cmd @ [CHR 0x22])\<rparr>) st of
                    (Inl e, st') \<Rightarrow> (Inl e, st')
                  | (Inr u, st') \<Rightarrow>
                      (Inr (succeeded
                         (check_mark @ '' Updated transformation for '' @ src @ '' to '' @ tt)
                         \<lparr>ch_type = Modified, mappingId = Some (m_id existingMapping),
                          ch_sourceField = src, ch_targetField = Some (target_field existingMapping),
                          details = ''Changed transformation to '' @ tt\<rparr>), st'))
             | None \<Rightarrow> (Inr could_not_execute, st))
          else (Inr could_not_execute, st)
      | _ \<Rightarrow> (Inr could_not_execute, st))"

definition execute_set_confidence :: "'st store_api \<Rightarrow> MappingCommand \<Rightarrow> DynamicMapping list \<Rightarrow> 'st
    \<Rightarrow> (js_error + AIProcessingResult) \<times> 'st" where
  "execute_set_confidence api cmd currentMappings st =
     (case (sourceField cmd, cmd_confidence cmd) of
        (Some src, Some conf) \<Rightarrow>
          if src \<noteq> [] then
            (case find_active currentMappings src of
               Some existingMapping \<Rightarrow>
                 (case api_updateMapping api (m_id existingMapping)
                         (no_update\<lparr>u_confidence := Some conf,
                            u_user_command := Some (originalCommand cmd)\<rparr>) st of
                    (Inl e, st') \<Rightarrow> (Inl e, st')
                  | (Inr u, st') \<Rightarrow>
                      (Inr (succeeded
                         (check_mark @ '' Set confidence for '' @ src @ '' to '' @ percent conf @ ''%'')
                         \<lparr>ch_type = Modified, mappingId = Some (m_id existingMapping),
                          ch_sourceField = src, ch_targetField = Some (target_field existingMapping),
                          details = ''Set confidence to '' @ percent conf @ ''%''\<rparr>), st'))
             | None \<Rightarrow> (Inr could_not_execute, st))
          else (Inr could_not_execute, st)
      | _ \<Rightarrow> (Inr could_not_execute, st))"

definition executeCommand_try :: "'st store_api \<Rightarrow> MappingCommand \<Rightarrow> DynamicMapping list \<Rightarrow> 'st
    \<Rightarrow> (js_error + AIProcessingResult) \<times> 'st" where
  \<comment> \<open>the \<open>try\<close> block: the \<open>switch\<close> over the command type; a case that does not return
      breaks to the final "could not execute"\<close>
  "executeCommand_try api cmd currentMappings st =
     (case cmd_type cmd of
        Create \<Rightarrow> execute_create api cmd currentMappings st
      | Delete \<Rightarrow> execute_delete api cmd currentMappings st
      | Modify_transformation \<Rightarrow> execute_modify_transformation api cmd currentMappings st
      | Set_confidence \<Rightarrow> execute_set_confidence api cmd currentMappings st
      | _ \<Rightarrow> (Inr could_not_execute, st))"

definition executeCommand :: "'st store_api \<Rightarrow> MappingCommand \<Rightarrow> DynamicMapping list \<Rightarrow> 'st
    \<Rightarrow> (js_error + AIProcessingResult) \<times> 'st" where
  \<comment> \<open>\<open>try { ... } catch (error) { return { success: false, ... } }\<close>\<close>
  "executeCommand api cmd currentMappings st =
     (case executeCommand_try api cmd currentMappings st of
        (Inl error, st') \<Rightarrow>
          (Inr \<lparr>success = False,
                message = cross_mark @ '' Error executing command: '' @ error_message error,
                appliedChanges = [], suggestions = None, needsClarification = None,
                clarificationQuestion = None\<rparr>, st')
      | (Inr result, st') \<Rightarrow> (Inr result, st'))"

subsection \<open>Several commands in one instruction\<close>

definition separator :: rx where
  \<comment> \<open>a comma, or one of the words and, then, also between two white-space characters\<close>
  "separator = alts [Lit '','',
     seqs [Cls is_space, Lit ''and'', Cls is_space],
     seqs [Cls is_space, Lit ''then'', Cls is_space],
     seqs [Cls is_space, Lit ''also'', Cls is_space]]"

definition match_here :: "rx \<Rightarrow> string \<Rightarrow> string option" where
  \<comment> \<open>the rest of the input after the first match of \<open>r\<close> at the start of \<open>s\<close>, when that
      match is not empty (the separator never matches the empty string)\<close>
  "match_here r s =
     (case rmatch r s Map.empty of
        [] \<Rightarrow> None
      | (rest, caps) # others \<Rightarrow> if length rest < length s then Some rest else None)"

function split_rx :: "rx \<Rightarrow> string \<Rightarrow> string \<Rightarrow> string list" where
  \<comment> \<open>\<open>s.split(r)\<close>; \<open>piece\<close> is the text since the last separator\<close>
  "split_rx r piece [] = [piece]"
| "split_rx r piece (c # cs) =
     (case match_here r (c # cs) of
        Some rest \<Rightarrow> piece # split_rx r [] rest
      | None \<Rightarrow> split_rx r (piece @ [c]) cs)"
  by pat_completeness auto
termination
  by (relation "measure (\<lambda>(r, piece, s). length s)")
     (auto simp: match_here_def split: list.splits if_splits)

definition extractMultipleCommands :: "string \<Rightarrow> instruction_context \<Rightarrow> MappingCommand list" where
  "extractMultipleCommands instruction ctx =
     concat (map (\<lambda>part.
        (let parseResult = parseCommand (trim part) (ctx_sourceFields ctx) (ctx_targetFields ctx) in
         case command parseResult of
           Some c \<Rightarrow> if parse_confidence parseResult > 5 / 10 then [c] else []
         | None \<Rightarrow> []))
       (split_rx separator [] instruction))"

fun execute_all :: "'st store_api \<Rightarrow> MappingCommand list \<Rightarrow> DynamicMapping list \<Rightarrow> 'st
    \<Rightarrow> (js_error + AIProcessingResult list) \<times> 'st" where
  \<comment> \<open>the loop \<open>for (const command of multipleCommands)\<close>\<close>
  "execute_all api [] currentMappings st = (Inr [], st)"
| "execute_all api (c # cs) currentMappings st =
     (case executeCommand api c currentMappings st of
        (Inl e, st') \<Rightarrow> (Inl e, st')
      | (Inr result, st') \<Rightarrow>
          (case execute_all api cs currentMappings st' of
             (Inl e, st'') \<Rightarrow> (Inl e, st'')
           | (Inr results, st'') \<Rightarrow> (Inr (result # results), st'')))"

subsection \<open>Contextual interpretation\<close>

definition plain_failure :: "string \<Rightarrow> AIProcessingResult" where
  "plain_failure msg = \<lparr>success = False, message = msg, appliedChanges = [], suggestions = None,
     needsClarification = None, clarificationQuestion = None\<rparr>"

definition extractFieldMentions :: "string \<Rightarrow> string list \<Rightarrow> string list \<Rightarrow> string list \<times> string list" where
  "extractFieldMentions instruction source target =
     (let instructionLower = toLowerCase instruction in
      (filter (\<lambda>f. str_includes instructionLower (toLowerCase f)) source,
       filter (\<lambda>f. str_includes instructionLower (toLowerCase f)) target))"

definition findBestFieldMatch :: "string \<Rightarrow> string list \<Rightarrow> string option \<times> real" where
  \<comment> \<open>\<open>bestMatch\<close> starts as \<open>targetFields[0]\<close>, which is undefined for an empty list\<close>
  "findBestFieldMatch src target =
     foldl (\<lambda>(bestMatch, bestScore) targetField.
              (let score = processor_calculateFieldSimilarity src targetField in
               if score > bestScore then (Some targetField, score) else (bestMatch, bestScore)))
       (case target of [] \<Rightarrow> None | t # ts \<Rightarrow> Some t, 0) target"

fun bulk_map :: "'st store_api \<Rightarrow> string \<Rightarrow> string list \<Rightarrow> string list \<Rightarrow> 'st
    \<Rightarrow> (js_error + MappingChange list) \<times> 'st" where
  \<comment> \<open>the loop of \<open>handleBulkMapping\<close> over the first source fields; a best match that
      scores above 0.6 is a field of the list\<close>
  "bulk_map api instruction target [] st = (Inr [], st)"
| "bulk_map api instruction target (src # rest) st =
     (case findBestFieldMatch src target of
        (Some best, score) \<Rightarrow>
          if score > 6 / 10 then
            (case api_addMapping api
                    \<lparr>source_field = src, target_field = best,
                     transformation_type = ''direct_mapping'', confidence = score,
                     reasoning = ''Bulk mapping via AI: '' @ [CHR 0x22] @ instruction @ [CHR 0x22],
                     transformation_logic = src @ '' -> '' @ best,
                     potential_issues = [], status = Active, user_modified = True,
                     user_command = Some instruction\<rparr> st of
               (Inl e, st') \<Rightarrow> (Inl e, st')
             | (Inr newId, st') \<Rightarrow>
                 (case bulk_map api instruction target rest st' of
                    (Inl e, st'') \<Rightarrow> (Inl e, st'')
                  | (Inr changes, st'') \<Rightarrow>
                      (Inr (\<lparr>ch_type = Created, mappingId = Some newId, ch_sourceField = src,
                             ch_targetField = Some best,
                             details = ''Auto-mapped based on similarity''\<rparr> # changes), st'')))
          else bulk_map api instruction target rest st
      | (None, score) \<Rightarrow> bulk_map api instruction target rest st)"

definition handleBulkMapping :: "'st store_api \<Rightarrow> string \<Rightarrow> instruction_context \<Rightarrow> 'st
    \<Rightarrow> (js_error + AIProcessingResult) \<times> 'st" where
  "handleBulkMapping api instruction ctx st =
     (case bulk_map api instruction (ctx_targetFields ctx) (take 5 (ctx_sourceFields ctx)) st of
        (Inl e, st') \<Rightarrow> (Inl e, st')
      | (Inr changes, st') \<Rightarrow>
          (Inr \<lparr>success = (length changes > 0),
                message = check_mark @ '' Created '' @ number_text (length changes)
                   @ '' automatic mappings'',
                appliedChanges = changes, suggestions = None, needsClarification = None,
                clarificationQuestion = None\<rparr>, st'))"

definition handleSimilarFieldMapping :: "string \<Rightarrow> instruction_context \<Rightarrow> AIProcessingResult" where
  "handleSimilarFieldMapping instruction ctx =
     (case fst (extractFieldMentions instruction (ctx_sourceFields ctx) (ctx_targetFields ctx)) of
        [] \<Rightarrow> plain_failure ''Please specify which field you want to find similar mappings for.''
      | referenceField # others \<Rightarrow>
          (let similarFields = filter (\<lambda>f. processor_calculateFieldSimilarity referenceField f > 6 / 10
                                           \<and> f \<noteq> referenceField) (ctx_sourceFields ctx) in
           if length similarFields = 0
           then plain_failure (''No similar fields found for '' @ [CHR 0x22] @ referenceField @ [CHR 0x22])
           else \<lparr>success = False,
                  message = ''Found similar fields: '' @ join '', '' similarFields,
                  appliedChanges = [], suggestions = None, needsClarification = Some True,
                  clarificationQuestion = Some (''Should I create mappings for these similar fields: ''
                     @ join '', '' similarFields @ ''?'')\<rparr>))"

fun bulk_remove :: "'st store_api \<Rightarrow> DynamicMapping list \<Rightarrow> 'st
    \<Rightarrow> (js_error + MappingChange list) \<times> 'st" where
  \<comment> \<open>the loop of \<open>handleBulkRemoval\<close> over the mappings to remove\<close>
  "bulk_remove api [] st = (Inr [], st)"
| "bulk_remove api (mapping # rest) st =
     (case api_removeMapping api (m_id mapping) st of
        (Inl e, st') \<Rightarrow> (Inl e, st')
      | (Inr u, st') \<Rightarrow>
          (case bulk_remove api rest st' of
             (Inl e, st'') \<Rightarrow> (Inl e, st'')
           | (Inr changes, st'') \<Rightarrow>
               (Inr (\<lparr>ch_type = Deleted, mappingId = Some (m_id mapping),
                      ch_sourceField = source_field mapping,
                      ch_targetField = Some (target_field mapping),
                      details = ''Bulk removal''\<rparr> # changes), st'')))"

definition handleBulkRemoval :: "'st store_api \<Rightarrow> string \<Rightarrow> instruction_context \<Rightarrow> 'st
    \<Rightarrow> (js_error + AIProcessingResult) \<times> 'st" where
  "handleBulkRemoval api instruction ctx st =
     (let mappingsToRemove = filter (\<lambda>m. status m = Active) (ctx_currentMappings ctx) in
      case bulk_remove api mappingsToRemove st of
        (Inl e, st') \<Rightarrow> (Inl e, st')
      | (Inr changes, st') \<Rightarrow>
          (Inr \<lparr>success = (length changes > 0),
                message = check_mark @ '' Removed '' @ number_text (length changes) @ '' mappings'',
                appliedChanges = changes, suggestions = None, needsClarification = None,
                clarificationQuestion = None\<rparr>, st'))"

definition contextualInterpretation :: "'st store_api \<Rightarrow> string \<Rightarrow> instruction_context \<Rightarrow> 'st
    \<Rightarrow> (js_error + AIProcessingResult) \<times> 'st" where
  "contextualInterpretation api instruction ctx st =
     (let lowerInstruction = toLowerCase instruction in
      if str_includes lowerInstruction ''all'' \<and> str_includes lowerInstruction ''map''
      then handleBulkMapping api instruction ctx st
      else if str_includes lowerInstruction ''similar'' \<or> str_includes lowerInstruction ''like''
      then (Inr (handleSimilarFieldMapping instruction ctx), st)
      else if str_includes lowerInstruction ''remove'' \<or> str_includes lowerInstruction ''clear''
      then handleBulkRemoval api instruction ctx st
      else
        (case extractFieldMentions instruction (ctx_sourceFields ctx) (ctx_targetFields ctx) of
           (s0 # ss, t0 # ts) \<Rightarrow>
             (Inr \<lparr>success = False,
                   message = ''I detected fields but need clarification on the mapping action.'',
                   appliedChanges = [],
                   suggestions = Some
                     [''Try: '' @ [CHR 0x22] @ ''Map '' @ s0 @ '' to '' @ t0 @ [CHR 0x22],
                      ''Try: '' @ [CHR 0x22] @ ''Delete mapping for '' @ s0 @ [CHR 0x22]],
                   needsClarification = Some True,
                   clarificationQuestion = Some (''Do you want to map '' @ join '', '' (s0 # ss)
                      @ '' to '' @ join '', '' (t0 # ts) @ ''?'')\<rparr>, st)
         | _ \<Rightarrow>
             (Inr \<lparr>success = False,
                   message = ''I couldn't understand that instruction. Please be more specific.'',
                   appliedChanges = [],
                   suggestions = Some
                     [''Try: '' @ [CHR 0x22] @ ''Map [source field] to [target field]'' @ [CHR 0x22],
                      ''Try: '' @ [CHR 0x22] @ ''Delete mapping for [field name]'' @ [CHR 0x22],
                      ''Try: '' @ [CHR 0x22] @ ''Map all customer fields to user fields'' @ [CHR 0x22]],
                   needsClarification = None, clarificationQuestion = None\<rparr>, st)))"

definition aiEnhancedProcessing :: "'st store_api \<Rightarrow> string \<Rightarrow> instruction_context \<Rightarrow> 'st
    \<Rightarrow> (js_error + AIProcessingResult) \<times> 'st" where
  "aiEnhancedProcessing api instruction ctx st =
     (let multipleCommands = extractMultipleCommands instruction ctx in
      if length multipleCommands > 0 then
        (case execute_all api multipleCommands (ctx_currentMappings ctx) st of
           (Inl e, st') \<Rightarrow> (Inl e, st')
         | (Inr results, st') \<Rightarrow>
             (let successCount = length (filter success results); totalCount = length results in
              (Inr \<lparr>success = (successCount > 0),
                    message = check_mark @ '' Applied '' @ number_text successCount @ ''/''
                       @ number_text totalCount @ '' mapping changes'',
                    appliedChanges = concat (map appliedChanges results),
                    suggestions = Some (concat (map (\<lambda>r. case suggestions r of None \<Rightarrow> [] | Some x \<Rightarrow> x)
                       results)),
                    needsClarification = None, clarificationQuestion = None\<rparr>, st')))
      else contextualInterpretation api instruction ctx st)"

definition processInstruction :: "'st store_api \<Rightarrow> string \<Rightarrow> instruction_context \<Rightarrow> 'st
    \<Rightarrow> (js_error + AIProcessingResult) \<times> 'st" where
  "processInstruction api instruction ctx st =
     (let parseResult = parseCommand instruction (ctx_sourceFields ctx) (ctx_targetFields ctx) in
      case command parseResult of
        Some c \<Rightarrow>
          if parse_confidence parseResult > 6 / 10
          then executeCommand api c (ctx_currentMappings ctx) st
          else aiEnhancedProcessing api instruction ctx st
      | None \<Rightarrow> aiEnhancedProcessing api instruction ctx st)"

subsection \<open>One instruction at a time\<close>

text \<open>
  \<open>processUserInstruction\<close> is asynchronous. \<open>begin_instruction\<close> is what a call does
  before it waits for \<open>processInstruction\<close>: it queues the instruction, and either
  rejects it (the flag is set) or sets the flag. \<open>settle_instruction\<close> is what the call
  does once \<open>processInstruction\<close> has settled: when it returned, the instruction is
  filtered out of the queue; in either case (\<open>finally\<close>) the flag is cleared and, if the
  queue is not empty, a timer is set that calls \<open>processUserInstruction\<close> again with the
  head of the queue and the same context.
\<close>

record processor =
  processingQueue :: "string list"
  isProcessing :: bool

definition please_wait :: AIProcessingResult where
  "please_wait = \<lparr>success = False, message = ''Processing previous instruction, please wait...'',
     appliedChanges = [], suggestions = None, needsClarification = None,
     clarificationQuestion = None\<rparr>"

definition begin_instruction :: "string \<Rightarrow> processor \<Rightarrow> AIProcessingResult option \<times> processor" where
  \<comment> \<open>\<open>Some\<close> the result returned at once, or \<open>None\<close> when processing starts\<close>
  "begin_instruction instruction p =
     (let p1 = p\<lparr>processingQueue := processingQueue p @ [instruction]\<rparr> in
      if isProcessing p1 then (Some please_wait, p1)
      else (None, p1\<lparr>isProcessing := True\<rparr>))"

definition settle_instruction :: "string \<Rightarrow> bool \<Rightarrow> processor \<Rightarrow> string option \<times> processor" where
  \<comment> \<open>\<open>returned\<close>: \<open>processInstruction\<close> returned a result (it did not throw); the first
      component is the instruction of the timer that is set, if any\<close>
  "settle_instruction instruction returned p =
     (let p1 = (if returned
                then p\<lparr>processingQueue := filter (\<lambda>i. i \<noteq> instruction) (processingQueue p)\<rparr>
                else p);
          p2 = p1\<lparr>isProcessing := False\<rparr>
      in (case processingQueue p2 of
            [] \<Rightarrow> (None, p2)
          | nextInstruction # others \<Rightarrow> (Some nextInstruction, p2)))"

definition processUserInstruction :: "'st store_api \<Rightarrow> string \<Rightarrow> instruction_context \<Rightarrow> processor \<times> 'st
    \<Rightarrow> (js_error + AIProcessingResult) \<times> string option \<times> processor \<times> 'st" where
  \<comment> \<open>a call that runs to its end before the next call is made: the outcome, the
      instruction of the timer it sets, the processor and the store it leaves\<close>
  "processUserInstruction api instruction ctx pst =
     (case begin_instruction instruction (fst pst) of
        (Some rejected, p1) \<Rightarrow> (Inr rejected, None, p1, snd pst)
      | (None, p1) \<Rightarrow>
          (let (outcome, st') = processInstruction api instruction ctx (snd pst);
               (timer, p2) = settle_instruction instruction (case outcome of Inl e \<Rightarrow> False | Inr r \<Rightarrow> True) p1
           in (outcome, timer, p2, st')))"

section \<open>Notions used in the statements\<close>

subsection \<open>Validation\<close>


subsection \<open>Resolution of a field token, in the words of the specification\<close>

text \<open>
  The parser's two blocks that resolve a field token are \<open>resolve_field\<close>. The notions
  below say what they compute; they are proved equal to it.
\<close>

definition exact_match :: "string \<Rightarrow> string list \<Rightarrow> string option" where
  \<comment> \<open>the first field of the vocabulary that equals the token up to case\<close>
  "exact_match tok vocabulary = find (\<lambda>f. toLowerCase f = toLowerCase tok) vocabulary"

definition similar_enough :: "string \<Rightarrow> string \<Rightarrow> bool" where
  \<comment> \<open>up to case: one contains the other, or their edit distance is at most 2\<close>
  "similar_enough tok f =
     (sublist (toLowerCase tok) (toLowerCase f) \<or> sublist (toLowerCase f) (toLowerCase tok)
      \<or> levenshteinDistance (toLowerCase tok) (toLowerCase f) \<le> 2)"

definition did_you_mean :: "string \<Rightarrow> string list \<Rightarrow> string list" where
  \<comment> \<open>the first three similar fields of the vocabulary\<close>
  "did_you_mean tok vocabulary = take 3 (filter (similar_enough tok) vocabulary)"

definition unresolved :: "string \<Rightarrow> string list \<Rightarrow> bool" where
  \<comment> \<open>the parser records an ambiguity for the token: it has no exact match and some
      similar field\<close>
  "unresolved tok vocabulary = (tok \<noteq> [] \<and> exact_match tok vocabulary = None \<and> did_you_mean tok vocabulary \<noteq> [])"

definition resolved :: "string option \<Rightarrow> string list \<Rightarrow> string option" where
  \<comment> \<open>the canonical spelling when the token has an exact match, the token otherwise\<close>
  "resolved token vocabulary =
     (case token of
        None \<Rightarrow> None
      | Some tok \<Rightarrow> (case exact_match tok vocabulary of Some f \<Rightarrow> Some f | None \<Rightarrow> Some tok))"

definition field_ambiguity :: "string \<Rightarrow> string option \<Rightarrow> string list \<Rightarrow> string list" where
  \<comment> \<open>the ambiguity recorded for a token, if any\<close>
  "field_ambiguity label token vocabulary =
     (case token of
        None \<Rightarrow> []
      | Some tok \<Rightarrow> if unresolved tok vocabulary
                    then [label @ '' field '' @ [CHR 0x22] @ tok @ [CHR 0x22] @ '' not found''] else [])"

definition field_suggestion :: "string option \<Rightarrow> string list \<Rightarrow> string list" where
  \<comment> \<open>the suggestion recorded for a token, if any\<close>
  "field_suggestion token vocabulary =
     (case token of
        None \<Rightarrow> []
      | Some tok \<Rightarrow> if unresolved tok vocabulary
                    then [''Did you mean: '' @ join '', '' (did_you_mean tok vocabulary) @ ''?''] else [])"


definition is_token :: "string \<Rightarrow> bool" where
  \<comment> \<open>a field name the patterns can capture: not empty, without white space and quotes\<close>
  "is_token t = (t \<noteq> [] \<and> list_all is_field_char t)"

subsection \<open>Outcomes of the processor\<close>

definition summary :: "(js_error + AIProcessingResult) \<Rightarrow> js_error + bool \<times> change_type list" where
  \<comment> \<open>of an outcome: the error, or the success flag and the types of the applied changes\<close>
  "summary outcome = (case outcome of Inl e \<Rightarrow> Inl e | Inr r \<Rightarrow> Inr (success r, map ch_type (appliedChanges r)))"

definition caught :: "js_error \<Rightarrow> AIProcessingResult" where
  \<comment> \<open>the result the \<open>catch\<close> block of \<open>executeCommand\<close> returns\<close>
  "caught e = \<lparr>success = False,
     message = cross_mark @ '' Error executing command: '' @ error_message e,
     appliedChanges = [], suggestions = None, needsClarification = None,
     clarificationQuestion = None\<rparr>"


definition removal_change :: "DynamicMapping \<Rightarrow> MappingChange" where
  \<comment> \<open>the change the bulk removal reports for a mapping\<close>
  "removal_change m = \<lparr>ch_type = Deleted, mappingId = Some (m_id m), ch_sourceField = source_field m,
     ch_targetField = Some (target_field m), details = ''Bulk removal''\<rparr>"

definition idle :: processor where
  \<comment> \<open>no instruction queued or in flight\<close>
  "idle = \<lparr>processingQueue = [], isProcessing = False\<rparr>"

subsection \<open>The instruction "Map a to b"\<close>

definition to_field2 :: rx where
  \<comment> \<open>the end of the pattern: \<open>to\<close>, white space, the target field\<close>
  "to_field2 = Seq (Lit ''to'') (Seq spaces (field_token 2))"

definition fields_part :: rx where
  \<comment> \<open>the pattern after its optional word \<open>field\<close>\<close>
  "fields_part = Seq (field_token 1) (Seq spaces to_field2)"

definition map_command :: "string \<Rightarrow> string \<Rightarrow> MappingCommand" where
  \<comment> \<open>the command the parser returns for the instruction\<close>
  "map_command a b = \<lparr>cmd_type = Create, sourceField = Some a, targetField = Some b,
     transformationType = None, cmd_confidence = None, originalCommand = ''Map '' @ a @ '' to '' @ b\<rparr>"

definition redirect :: "string \<Rightarrow> string \<Rightarrow> MappingUpdate" where
  \<comment> \<open>the update the executor applies to an existing mapping\<close>
  "redirect a b = no_update\<lparr>u_target_field := Some b,
     u_user_command := Some (''Map '' @ a @ '' to '' @ b),
     u_reasoning := Some (''Updated via AI command: '' @ [CHR 0x22] @ (''Map '' @ a @ '' to '' @ b) @ [CHR 0x22])\<rparr>"

definition created_record :: "environment \<Rightarrow> nat \<Rightarrow> string \<Rightarrow> string \<Rightarrow> DynamicMapping" where
  \<comment> \<open>the record the first application adds, at the \<open>n\<close>-th call of the store\<close>
  "created_record env n a b =
     \<lparr>source_field = a, target_field = b, transformation_type = ''direct_mapping'',
      confidence = 85 / 100,
      reasoning = ''AI-created mapping via command: '' @ [CHR 0x22] @ (''Map '' @ a @ '' to '' @ b) @ [CHR 0x22],
      transformation_logic = a @ '' -> '' @ b, potential_issues = [], status = Active,
      user_modified = True, user_command = Some (''Map '' @ a @ '' to '' @ b),
      m_id = env_id env n, created_at = env_now env n, updated_at = env_now env n\<rparr>"

definition updated_record :: "environment \<Rightarrow> nat \<Rightarrow> string \<Rightarrow> string \<Rightarrow> DynamicMapping" where
  \<comment> \<open>the created record after the second application\<close>
  "updated_record env n a b = (created_record env n a b)
     \<lparr>reasoning := ''Updated via AI command: '' @ [CHR 0x22] @ (''Map '' @ a @ '' to '' @ b) @ [CHR 0x22],
      updated_at := env_now env (Suc n)\<rparr>"

definition run_twice :: "environment \<Rightarrow> string \<Rightarrow> string list \<Rightarrow> string list \<Rightarrow> MappingStore \<Rightarrow> nat
    \<Rightarrow> ((js_error + AIProcessingResult) \<times> world) \<times> ((js_error + AIProcessingResult) \<times> world)" where
  \<comment> \<open>two calls in succession, the processor idle at first, each with the store's
      mappings as \<open>currentMappings\<close>: the outcome and the state after each\<close>
  "run_twice env instruction source target s n =
     (case processUserInstruction (zustand_api env) instruction
             \<lparr>ctx_sourceFields = source, ctx_targetFields = target, ctx_currentMappings = mappings s\<rparr>
             (idle, \<lparr>w_store = s, w_calls = n\<rparr>) of
        (outcome1, timer1, p1, w1) \<Rightarrow>
          (case processUserInstruction (zustand_api env) instruction
                  \<lparr>ctx_sourceFields = source, ctx_targetFields = target,
                   ctx_currentMappings = mappings (w_store w1)\<rparr> (p1, w1) of
             (outcome2, timer2, p2, w2) \<Rightarrow> ((outcome1, w1), (outcome2, w2))))"

subsection \<open>Interleaved calls\<close>

text \<open>
  The calls of \<open>processUserInstruction\<close> interleaved: a call begins, and settles later;
  other calls may begin in between, and a timer that was set fires as one more call.
  \<open>in_flight\<close> holds the instructions between their begin and their settling.
\<close>

record system =
  sys_processor :: processor
  in_flight :: "string list"
  timers :: "string list"

inductive step :: "system \<Rightarrow> system \<Rightarrow> bool" where
  call_rejected:
    "begin_instruction i (sys_processor s) = (Some r, p) \<Longrightarrow>
     step s (s\<lparr>sys_processor := p\<rparr>)"
| call_started:
    "begin_instruction i (sys_processor s) = (None, p) \<Longrightarrow>
     step s (s\<lparr>sys_processor := p, in_flight := in_flight s @ [i]\<rparr>)"
| settled:
    "i \<in> set (in_flight s) \<Longrightarrow> settle_instruction i returned (sys_processor s) = (t, p) \<Longrightarrow>
     step s (s\<lparr>sys_processor := p, in_flight := remove1 i (in_flight s),
               timers := timers s @ (case t of None \<Rightarrow> [] | Some n \<Rightarrow> [n])\<rparr>)"
| timer_rejected:
    "i \<in> set (timers s) \<Longrightarrow> begin_instruction i (sys_processor s) = (Some r, p) \<Longrightarrow>
     step s (s\<lparr>sys_processor := p, timers := remove1 i (timers s)\<rparr>)"
| timer_started:
    "i \<in> set (timers s) \<Longrightarrow> begin_instruction i (sys_processor s) = (None, p) \<Longrightarrow>
     step s (s\<lparr>sys_processor := p, in_flight := in_flight s @ [i], timers := remove1 i (timers s)\<rparr>)"

definition initial_system :: system where
  \<comment> \<open>a new processor: nothing queued, in flight or scheduled\<close>
  "initial_system = \<lparr>sys_processor = \<lparr>processingQueue = [], isProcessing = False\<rparr>,
     in_flight = [], timers = []\<rparr>"

definition single_flight :: "system \<Rightarrow> bool" where
  \<comment> \<open>the flag is set exactly while one instruction is in flight\<close>
  "single_flight s = (length (in_flight s) \<le> 1 \<and> (isProcessing (sys_processor s) = (in_flight s \<noteq> [])))"

subsection \<open>Example states\<close>

definition example_mapping :: "string \<Rightarrow> string \<Rightarrow> string \<Rightarrow> mapping_status \<Rightarrow> DynamicMapping" where
  \<comment> \<open>a mapping as \<open>setDocumentMappings\<close> generates it: not modified by the user\<close>
  "example_mapping ident src tgt st =
     \<lparr>source_field = src, target_field = tgt, transformation_type = ''direct_mapping'',
      confidence = 1, reasoning = ''generated'', transformation_logic = src @ '' -> '' @ tgt,
      potential_issues = [], status = st, user_modified = False, user_command = None,
      m_id = ident, created_at = ''t0'', updated_at = ''t0''\<rparr>"

definition example_env :: environment where
  \<comment> \<open>the clock reads \<open>t1\<close>, \<open>t2\<close>, ... and the generator returns \<open>mapping-1\<close>, \<open>mapping-2\<close>, ...\<close>
  "example_env = \<lparr>env_now = (\<lambda>n. ''t'' @ number_text (Suc n)),
                   env_id = (\<lambda>n. ''mapping-'' @ number_text (Suc n))\<rparr>"

definition no_mappings :: MappingStore where
  \<comment> \<open>the store of a document without mappings\<close>
  "no_mappings = \<lparr>mappings = [], conflicts = [], documentId = Some ''doc''\<rparr>"

definition one_mapping_store :: MappingStore where
  \<comment> \<open>one active mapping, \<open>id\<close> to \<open>user_id\<close>\<close>
  "one_mapping_store = \<lparr>mappings = [example_mapping ''m1'' ''id'' ''user_id'' Active],
     conflicts = [], documentId = Some ''doc''\<rparr>"

definition one_mapping_context :: instruction_context where
  \<comment> \<open>two source and two target fields, and the mappings of that store\<close>
  "one_mapping_context = \<lparr>ctx_sourceFields = [''id'', ''name''],
     ctx_targetFields = [''user_id'', ''full_name''],
     ctx_currentMappings = mappings one_mapping_store\<rparr>"

definition two_sources_store :: MappingStore where
  \<comment> \<open>two active mappings of the source field \<open>id\<close>, validated: one conflict\<close>
  "two_sources_store = snd (validateMappings
     \<lparr>mappings = [example_mapping ''m1'' ''id'' ''user_id'' Active,
                  example_mapping ''m2'' ''id'' ''full_name'' Active],
      conflicts = [], documentId = Some ''doc''\<rparr>)"

definition failing_api :: "world store_api" where
  \<comment> \<open>a store whose functions throw\<close>
  "failing_api =
     \<lparr>api_updateMapping = (\<lambda>ident updates w. (Inl (Error ''storage unavailable''), w)),
      api_addMapping = (\<lambda>mapping w. (Inl (Error ''storage unavailable''), w)),
      api_removeMapping = (\<lambda>ident w. (Inl (Error ''storage unavailable''), w))\<rparr>"

section \<open>Strings\<close>

lemma str_includes_sublist: "str_includes s t \<longleftrightarrow> sublist t s"
  by (induction s) (auto simp: sublist_Cons_right)

section \<open>Validation\<close>



lemma map_get_None_iff: "map_get c k = None \<longleftrightarrow> k \<notin> set (map fst c)"
  by (induction c) force+








lemma validateMappings_snd:
  "snd (validateMappings s) = s\<lparr>conflicts := fst (validateMappings s)\<rparr>"
  by (simp add: validateMappings_def Let_def)












section \<open>Removing a mapping\<close>

text \<open>
  Claim C4, as the code has it. \<open>removeMapping\<close> keeps, in order, the mappings whose id is
  not the given one, and keeps, in order and unchanged, the conflicts whose
  \<open>affected_mappings\<close> does not contain the id: a conflict that names the removed mapping is
  dropped whole, its list is not shortened. No conflict is computed anew and the document id
  stays.
\<close>

theorem removeMapping_effect:
  "mappings (removeMapping ident s) = filter (\<lambda>m. m_id m \<noteq> ident) (mappings s)
   \<and> conflicts (removeMapping ident s) = filter (\<lambda>c. ident \<notin> set (affected_mappings c)) (conflicts s)
   \<and> documentId (removeMapping ident s) = documentId s
   \<and> ident \<notin> set (map m_id (mappings (removeMapping ident s)))
   \<and> ident \<notin> set (concat (map affected_mappings (conflicts (removeMapping ident s))))
   \<and> set (conflicts (removeMapping ident s)) \<subseteq> set (conflicts s)"
  by (auto simp: removeMapping_def)

text \<open>
  The claim as stated fails: in a store whose one conflict names the mappings \<open>m1\<close> and
  \<open>m2\<close>, removing \<open>m1\<close> leaves no conflict, where the claim keeps the conflict with the
  list \<open>[m2]\<close>.
\<close>

theorem removeMapping_counterexample:
  "map affected_mappings (conflicts two_sources_store) = [[''m1'', ''m2'']]
   \<and> conflicts (removeMapping ''m1'' two_sources_store) = []
   \<and> map m_id (mappings (removeMapping ''m1'' two_sources_store)) = [''m2'']"
  by code_simp

theorem removeMapping_effect_witness:
  "conflicts (removeMapping ''m1'' two_sources_store)
     = filter (\<lambda>c. ''m1'' \<notin> set (affected_mappings c)) (conflicts two_sources_store)"
  by (rule removeMapping_effect [THEN conjunct2, THEN conjunct1])

section \<open>The flag \<open>user_modified\<close>\<close>

lemma updateMapping_mappings:
  "mappings (updateMapping now ident updates s) =
     map (\<lambda>mapping. if m_id mapping = ident
                      then (spread mapping updates)\<lparr>updated_at := now, user_modified := True\<rparr>
                      else mapping) (mappings s)"
  by (simp add: updateMapping_def validateMappings_snd)

lemma updateMapping_marks:
  assumes "m \<in> set (mappings s)" and "m_id m = ident"
  shows "(spread m updates)\<lparr>updated_at := now, user_modified := True\<rparr>
           \<in> set (mappings (updateMapping now ident updates s))"
  using assms by (force simp: updateMapping_mappings)

text \<open>
  Claim C5 at the input where the code departs from it. The store holds two generated
  mappings (\<open>user_modified\<close> false) and the conflict between them. Resolving the conflict
  with \<open>modify\<close> and the data \<open>{target_field: "email"}\<close> changes the target field of both
  mappings and refreshes \<open>updated_at\<close>, and leaves \<open>user_modified\<close> false.
\<close>

theorem resolveConflict_modify_leaves_user_modified:
  "map (\<lambda>m. (m_id m, target_field m, status m, updated_at m, user_modified m))
     (mappings (resolveConflict ''t1'' ''conflict-duplicate-source-id'' Modify
        (Some (no_update\<lparr>u_target_field := Some ''email''\<rparr>)) two_sources_store))
   = [(''m1'', ''email'', Active, ''t1'', False), (''m2'', ''email'', Active, ''t1'', False)]"
  by code_simp

section \<open>Commands of type update\<close>

lemma update_forms:
  "parseCommand ''change the mapping id to user_id'' [''id''] [''user_id'']
     = \<lparr>command = Some \<lparr>cmd_type = Update, sourceField = Some ''id'', targetField = Some ''user_id'',
           transformationType = None, cmd_confidence = None,
           originalCommand = ''change the mapping id to user_id''\<rparr>,
         parse_confidence = 9 / 10, ambiguities = [], parse_suggestions = []\<rparr>"
  "parseCommand ''Modify mapping for id to user_id'' [''id''] [''user_id'']
     = \<lparr>command = Some \<lparr>cmd_type = Update, sourceField = Some ''id'', targetField = Some ''user_id'',
           transformationType = None, cmd_confidence = None,
           originalCommand = ''Modify mapping for id to user_id''\<rparr>,
         parse_confidence = 9 / 10, ambiguities = [], parse_suggestions = []\<rparr>"
  by code_simp+

text \<open>
  Claim C10. Executing a command of type \<open>update\<close> returns the result "could not execute
  command" (no success, no applied change) and leaves the state as it was, whatever the
  store, the current mappings and the fields of the command are. The parser produces such
  commands, with confidence 0.9, and \<open>processInstruction\<close> then answers the same.
\<close>

theorem update_command_not_executed:
  assumes "cmd_type cmd = Update"
  shows "executeCommand api cmd cms st = (Inr could_not_execute, st)
    \<and> success could_not_execute = False
    \<and> message could_not_execute = cross_mark @ '' Could not execute command''
    \<and> appliedChanges could_not_execute = []
    \<and> map_option cmd_type (command (parseCommand ''Update mapping for id to user_id'' [''id''] [''user_id'']))
        = Some Update
    \<and> parse_confidence (parseCommand ''Update mapping for id to user_id'' [''id''] [''user_id'']) = 9 / 10
    \<and> processInstruction api ''Update mapping for id to user_id''
         \<lparr>ctx_sourceFields = [''id''], ctx_targetFields = [''user_id''], ctx_currentMappings = cms\<rparr> st
        = (Inr could_not_execute, st)"
proof -
  have exec: "executeCommand api c cms st = (Inr could_not_execute, st)" if "cmd_type c = Update" for c
    using that by (simp add: executeCommand_def executeCommand_try_def)
  have parsed: "parseCommand ''Update mapping for id to user_id'' [''id''] [''user_id'']
      = \<lparr>command = Some \<lparr>cmd_type = Update, sourceField = Some ''id'', targetField = Some ''user_id'',
            transformationType = None, cmd_confidence = None,
            originalCommand = ''Update mapping for id to user_id''\<rparr>,
          parse_confidence = 9 / 10, ambiguities = [], parse_suggestions = []\<rparr>"
    by code_simp
  have "processInstruction api ''Update mapping for id to user_id''
         \<lparr>ctx_sourceFields = [''id''], ctx_targetFields = [''user_id''], ctx_currentMappings = cms\<rparr> st
        = (Inr could_not_execute, st)"
    by (simp add: processInstruction_def parsed exec)
  then show ?thesis
    using exec [OF assms] by (simp add: parsed could_not_execute_def)
qed

theorem update_command_not_executed_witness:
  "executeCommand (zustand_api example_env)
     \<lparr>cmd_type = Update, sourceField = Some ''id'', targetField = Some ''user_id'',
      transformationType = None, cmd_confidence = None,
      originalCommand = ''Update mapping for id to user_id''\<rparr>
     (mappings two_sources_store) \<lparr>w_store = two_sources_store, w_calls = 0\<rparr>
   = (Inr could_not_execute, \<lparr>w_store = two_sources_store, w_calls = 0\<rparr>)"
  by (rule update_command_not_executed [THEN conjunct1]) simp

section \<open>Field similarity\<close>





section \<open>Resolution of field names by the parser\<close>

lemma findSimilarFields_eq: "findSimilarFields tok vocabulary = did_you_mean tok vocabulary"
  by (simp add: did_you_mean_def similar_enough_def [abs_def] str_includes_sublist Let_def)

lemma toLowerCase_Nil_iff: "toLowerCase f = toLowerCase [] \<longleftrightarrow> f = []"
  by (simp add: toLowerCase_def)

lemma exact_match_Nil: "exact_match [] vocabulary = Some f \<Longrightarrow> f = []"
  by (auto simp: exact_match_def find_Some_iff toLowerCase_Nil_iff)

lemma resolve_field_eq:
  "resolve_field label token vocabulary =
     (resolved token vocabulary, field_ambiguity label token vocabulary, field_suggestion token vocabulary)"
proof (cases token)
  case None
  then show ?thesis
    by (simp add: resolve_field_def resolved_def field_ambiguity_def field_suggestion_def)
next
  case (Some tok)
  show ?thesis
  proof (cases "tok = []")
    case True
    with Some show ?thesis
      by (auto simp: resolve_field_def resolved_def field_ambiguity_def field_suggestion_def
            unresolved_def dest: exact_match_Nil split: option.splits)
  next
    case False
    with Some show ?thesis
      by (auto simp: resolve_field_def resolved_def field_ambiguity_def field_suggestion_def
            unresolved_def findSimilarFields_eq exact_match_def Let_def
            simp del: findSimilarFields.simps split: option.splits)
  qed
qed




lemma exact_match_Some:
  "exact_match tok vocabulary = Some f \<Longrightarrow> f \<in> set vocabulary \<and> toLowerCase f = toLowerCase tok"
  by (auto simp: exact_match_def find_Some_iff)




section \<open>Bulk removal\<close>

text \<open>
  Claim C3 at the input where the code departs from it. The store holds one active
  mapping. "Delete all mappings", the text the chat's Clear All button submits, matches no
  pattern; its lower case contains \<open>all\<close> and \<open>map\<close>, so \<open>contextualInterpretation\<close> calls
  \<open>handleBulkMapping\<close> before it looks for \<open>remove\<close> or \<open>clear\<close>: two mappings are created
  and none is removed.
\<close>

theorem delete_all_mappings_maps:
  "(case processUserInstruction (zustand_api example_env) ''Delete all mappings'' one_mapping_context
           (idle, \<lparr>w_store = one_mapping_store, w_calls = 0\<rparr>) of
      (outcome, timer, p, w) \<Rightarrow>
        (summary outcome, map (\<lambda>m. (m_id m, source_field m, target_field m, status m)) (mappings (w_store w))))
   = (Inr (True, [Created, Created]),
      [(''m1'', ''id'', ''user_id'', Active),
       (''mapping-1'', ''id'', ''user_id'', Active),
       (''mapping-2'', ''name'', ''full_name'', Active)])"
  by code_simp

lemma clear_literals:
  "first_pattern COMMAND_PATTERNS ''clear'' = None"
  "split_rx separator [] ''clear'' = [''clear'']"
  "trim ''clear'' = ''clear''"
  "toLowerCase ''clear'' = ''clear''"
  "\<not> str_includes ''clear'' ''all''"
  "\<not> str_includes ''clear'' ''similar''"
  "\<not> str_includes ''clear'' ''like''"
  "str_includes ''clear'' ''clear''"
  by code_simp+

lemma parse_clear:
  "parse_confidence (parseCommand ''clear'' source target) \<le> 3 / 10"
  by (simp add: parseCommand_def clear_literals Let_def)

lemma clear_reaches_heuristics:
  "processInstruction api ''clear'' ctx st = handleBulkRemoval api ''clear'' ctx st"
proof -
  let ?p = "parseCommand ''clear'' (ctx_sourceFields ctx) (ctx_targetFields ctx)"
  have low: "\<not> parse_confidence ?p > 6 / 10" "\<not> parse_confidence ?p > 5 / 10"
    using parse_clear [of "ctx_sourceFields ctx" "ctx_targetFields ctx"] by simp_all
  have part: "(case command ?p of Some c \<Rightarrow> if parse_confidence ?p > 5 / 10 then [c] else [] | None \<Rightarrow> []) = []"
    by (cases "command ?p") (simp_all only: option.case low if_False)
  have none: "extractMultipleCommands ''clear'' ctx = []"
    unfolding extractMultipleCommands_def Let_def clear_literals(2) list.map clear_literals(3) part
    by simp
  have ctxi: "contextualInterpretation api ''clear'' ctx st = handleBulkRemoval api ''clear'' ctx st"
    unfolding contextualInterpretation_def Let_def clear_literals(4)
    by (simp only: clear_literals simp_thms if_False if_True)
  have ai: "aiEnhancedProcessing api ''clear'' ctx st = handleBulkRemoval api ''clear'' ctx st"
    unfolding aiEnhancedProcessing_def Let_def none
    by (simp only: list.size less_irrefl if_False ctxi)
  show ?thesis
    unfolding processInstruction_def Let_def
    by (cases "command ?p") (simp_all only: option.case low if_False ai)
qed

lemma bulk_remove_store:
  "bulk_remove (zustand_api env) ms \<lparr>w_store = s, w_calls = n\<rparr>
     = (Inr (map removal_change ms),
        \<lparr>w_store = s\<lparr>mappings := filter (\<lambda>m. m_id m \<notin> set (map m_id ms)) (mappings s),
                      conflicts := filter (\<lambda>c. set (affected_mappings c) \<inter> set (map m_id ms) = {}) (conflicts s)\<rparr>,
         w_calls = n + length ms\<rparr>)"
proof (induction ms arbitrary: s n)
  case Nil
  show ?case by simp
next
  case (Cons m ms)
  have step: "api_removeMapping (zustand_api env) (m_id m) \<lparr>w_store = s, w_calls = n\<rparr>
      = (Inr (), \<lparr>w_store = removeMapping (m_id m) s, w_calls = Suc n\<rparr>)"
    by (simp add: zustand_api_def)
  have ih: "bulk_remove (zustand_api env) ms \<lparr>w_store = removeMapping (m_id m) s, w_calls = Suc n\<rparr>
      = (Inr (map removal_change ms),
         \<lparr>w_store = (removeMapping (m_id m) s)
            \<lparr>mappings := filter (\<lambda>x. m_id x \<notin> set (map m_id ms)) (mappings (removeMapping (m_id m) s)),
             conflicts := filter (\<lambda>c. set (affected_mappings c) \<inter> set (map m_id ms) = {})
                (conflicts (removeMapping (m_id m) s))\<rparr>,
          w_calls = Suc n + length ms\<rparr>)"
    by (rule Cons.IH)
  have st: "(removeMapping (m_id m) s)
            \<lparr>mappings := filter (\<lambda>x. m_id x \<notin> set (map m_id ms)) (mappings (removeMapping (m_id m) s)),
             conflicts := filter (\<lambda>c. set (affected_mappings c) \<inter> set (map m_id ms) = {})
                (conflicts (removeMapping (m_id m) s))\<rparr>
      = s\<lparr>mappings := filter (\<lambda>x. m_id x \<notin> set (map m_id (m # ms))) (mappings s),
           conflicts := filter (\<lambda>c. set (affected_mappings c) \<inter> set (map m_id (m # ms)) = {}) (conflicts s)\<rparr>"
    by (auto simp: removeMapping_def intro!: filter_cong)
  show ?case
    unfolding bulk_remove.simps step prod.case sum.case ih st
    by (simp add: removal_change_def)
qed

text \<open>
  The other text of the claim, "clear", does what the claim says, for every store and
  vocabulary, when the call receives the store's mappings: every active mapping is
  removed and reported as deleted.
\<close>

lemma clear_removes_all:
  assumes "ctx_currentMappings ctx = mappings s"
  shows "\<exists>r s'.
     processUserInstruction (zustand_api env) ''clear'' ctx (idle, \<lparr>w_store = s, w_calls = n\<rparr>)
       = (Inr r, None, idle, \<lparr>w_store = s', w_calls = n + length (exportMappings s)\<rparr>)
     \<and> appliedChanges r = map removal_change (exportMappings s)
     \<and> length (appliedChanges r) = length (exportMappings s)
     \<and> exportMappings s' = []
     \<and> mappings s' = filter (\<lambda>m. m_id m \<notin> set (map m_id (exportMappings s))) (mappings s)"
proof -
  let ?act = "filter (\<lambda>m. status m = Active) (mappings s)"
  let ?s' = "s\<lparr>mappings := filter (\<lambda>m. m_id m \<notin> set (map m_id ?act)) (mappings s),
               conflicts := filter (\<lambda>c. set (affected_mappings c) \<inter> set (map m_id ?act) = {}) (conflicts s)\<rparr>"
  let ?r = "\<lparr>success = (length (map removal_change ?act) > 0),
             message = check_mark @ '' Removed '' @ number_text (length (map removal_change ?act)) @ '' mappings'',
             appliedChanges = map removal_change ?act, suggestions = None, needsClarification = None,
             clarificationQuestion = None\<rparr>"
  have h: "handleBulkRemoval (zustand_api env) ''clear'' ctx \<lparr>w_store = s, w_calls = n\<rparr>
      = (Inr ?r, \<lparr>w_store = ?s', w_calls = n + length ?act\<rparr>)"
    unfolding handleBulkRemoval_def Let_def assms bulk_remove_store by simp
  have p: "processUserInstruction (zustand_api env) ''clear'' ctx (idle, \<lparr>w_store = s, w_calls = n\<rparr>)
      = (Inr ?r, None, idle, \<lparr>w_store = ?s', w_calls = n + length ?act\<rparr>)"
    unfolding processUserInstruction_def clear_reaches_heuristics
    by (simp add: begin_instruction_def settle_instruction_def idle_def h)
  have e: "exportMappings ?s' = []"
    by (auto simp: exportMappings_def filter_empty_conv)
  show ?thesis
    using p e
    by (intro exI [of _ ?r] exI [of _ ?s']) (simp add: exportMappings_def)
qed

section \<open>Errors thrown by the store\<close>

lemma executeCommand_caught:
  "executeCommand api cmd cms st =
     (Inr (case fst (executeCommand_try api cmd cms st) of Inl e \<Rightarrow> caught e | Inr r \<Rightarrow> r),
      snd (executeCommand_try api cmd cms st))"
  by (simp add: executeCommand_def caught_def split: prod.splits sum.splits)






lemma delete_with_failing_store:
  "fst (processUserInstruction failing_api ''Delete mapping for id'' one_mapping_context
          (idle, \<lparr>w_store = one_mapping_store, w_calls = 0\<rparr>))
   = Inr (caught (Error ''storage unavailable''))"
  by code_simp

section \<open>The queue of instructions\<close>

lemma begin_instruction_busy:
  "isProcessing p \<Longrightarrow>
   begin_instruction instruction p
     = (Some please_wait, p\<lparr>processingQueue := processingQueue p @ [instruction]\<rparr>)"
  by (simp add: begin_instruction_def)

lemma settle_instruction_timer:
  "fst (settle_instruction instruction True p)
     = (case filter (\<lambda>i. i \<noteq> instruction) (processingQueue p) of [] \<Rightarrow> None | i # others \<Rightarrow> Some i)"
  by (simp add: settle_instruction_def split: list.splits)

lemma begin_instruction_cases:
  "begin_instruction i p = (r, p') \<Longrightarrow>
     (isProcessing p \<and> r = Some please_wait \<and> isProcessing p')
     \<or> (\<not> isProcessing p \<and> r = None \<and> isProcessing p')"
  by (auto simp: begin_instruction_def Let_def split: if_splits)

lemma settle_instruction_idle: "settle_instruction i returned p = (t, p') \<Longrightarrow> \<not> isProcessing p'"
  by (auto simp: settle_instruction_def Let_def split: list.splits)

lemma step_single_flight: "step s s' \<Longrightarrow> single_flight s \<Longrightarrow> single_flight s'"
proof (induction rule: step.induct)
  case (call_rejected i s r p)
  then show ?case
    using begin_instruction_cases [of i "sys_processor s" "Some r" p]
    by (auto simp: single_flight_def)
next
  case (call_started i s p)
  then show ?case
    using begin_instruction_cases [of i "sys_processor s" None p]
    by (auto simp: single_flight_def)
next
  case (settled i s returned t p)
  from settled(1,3) have "in_flight s = [i]"
    by (cases "in_flight s") (auto simp: single_flight_def)
  with settled show ?case
    using settle_instruction_idle [of i returned "sys_processor s" t p]
    by (simp add: single_flight_def)
next
  case (timer_rejected i s r p)
  then show ?case
    using begin_instruction_cases [of i "sys_processor s" "Some r" p]
    by (auto simp: single_flight_def)
next
  case (timer_started i s p)
  then show ?case
    using begin_instruction_cases [of i "sys_processor s" None p]
    by (auto simp: single_flight_def)
qed

text \<open>
  The part of the claim that holds in every interleaving: at most one instruction is
  between its begin and its settling.
\<close>

lemma at_most_one_in_flight:
  "step\<^sup>*\<^sup>* initial_system s \<Longrightarrow> length (in_flight s) \<le> 1"
proof -
  assume "step\<^sup>*\<^sup>* initial_system s"
  then have "single_flight s"
    by (induction rule: rtranclp_induct)
       (auto simp: single_flight_def initial_system_def dest: step_single_flight)
  then show ?thesis by (simp add: single_flight_def)
qed

text \<open>
  Claim C9 at the input where the code departs from it: the instruction "Map a to b" is
  submitted while the same text is in flight. The first call starts processing. The
  second call is rejected with the "please wait" result and the text is queued a second
  time. When the first call settles, the filter removes every entry equal to its
  instruction: the queue is empty, no timer is set, and the rejected instruction is
  never retried.
\<close>

theorem same_text_never_retried:
  "begin_instruction ''Map a to b'' idle
     = (None, \<lparr>processingQueue = [''Map a to b''], isProcessing = True\<rparr>)
   \<and> begin_instruction ''Map a to b'' \<lparr>processingQueue = [''Map a to b''], isProcessing = True\<rparr>
     = (Some please_wait, \<lparr>processingQueue = [''Map a to b'', ''Map a to b''], isProcessing = True\<rparr>)
   \<and> settle_instruction ''Map a to b'' True
        \<lparr>processingQueue = [''Map a to b'', ''Map a to b''], isProcessing = True\<rparr>
     = (None, \<lparr>processingQueue = [], isProcessing = False\<rparr>)"
  by (simp add: begin_instruction_def settle_instruction_def idle_def)

section \<open>Mapping a field twice\<close>

subsection \<open>Characters\<close>

lemma of_char_less_256: "(of_char c :: nat) < 256"
  by (cases c) (simp add: )

lemma of_char_char_of_small: "n < 256 \<Longrightarrow> (of_char (char_of n) :: nat) = n"
  by (simp add: of_char_of [where ?'a = nat] )

lemma toLowerChar_idem: "toLowerChar (toLowerChar c) = toLowerChar c"
  by (auto simp: toLowerChar_def Let_def of_char_char_of_small)

lemma is_space_toLowerChar: "is_space (toLowerChar c) = is_space c"
  by (auto simp: toLowerChar_def is_space_def Let_def of_char_char_of_small)

lemma is_quote_iff: "is_quote c \<longleftrightarrow> (of_char c :: nat) = 34 \<or> (of_char c :: nat) = 96 \<or> (of_char c :: nat) = 39"
proof -
  have "c = CHR 0x22 \<longleftrightarrow> (of_char c :: nat) = of_char (CHR 0x22)"
       "c = CHR 0x60 \<longleftrightarrow> (of_char c :: nat) = of_char (CHR 0x60)"
       "c = CHR 0x27 \<longleftrightarrow> (of_char c :: nat) = of_char (CHR 0x27)"
    by (simp_all only: of_char_eq_iff)
  then show ?thesis by (simp add: is_quote_def)
qed

lemma is_quote_toLowerChar: "is_quote (toLowerChar c) = is_quote c"
  by (auto simp: is_quote_iff toLowerChar_def Let_def of_char_char_of_small)

lemma is_field_char_toLowerChar: "is_field_char (toLowerChar c) = is_field_char c"
  by (simp add: is_field_char_def is_space_toLowerChar is_quote_toLowerChar)

lemma is_token_toLowerCase: "is_token (toLowerCase t) = is_token t"
  by (simp add: is_token_def toLowerCase_def list_all_iff is_field_char_toLowerChar)

lemma toLowerCase_idem: "toLowerCase (toLowerCase t) = toLowerCase t"
  by (simp add: toLowerCase_def toLowerChar_idem)

subsection \<open>Matching\<close>

lemma is_token_D:
  assumes "is_token t"
  shows "t \<noteq> []" and "\<And>c. c \<in> set t \<Longrightarrow> is_field_char c"
    and "\<not> is_space (hd t)" and "\<not> is_quote (hd t)" and "\<not> is_space (last t)"
  using assms by (auto simp: is_token_def list_all_iff is_field_char_def)

lemma rmatch_Lit_prefix: "toLowerCase pre = l \<Longrightarrow> rmatch (Lit l) (pre @ r) caps = [(r, caps)]"
  by (auto simp: toLowerCase_def)

lemma rmatch_Plus_none: "s = [] \<or> \<not> p (hd s) \<Longrightarrow> rmatch (Plus p) s caps = []"
  by (cases s) auto

lemma rmatch_Plus_run:
  assumes "\<And>c. c \<in> set t \<Longrightarrow> p c" and "r = [] \<or> \<not> p (hd r)"
  shows "rmatch (Plus p) (t @ r) caps = map (\<lambda>k. (drop k t @ r, caps)) (rev [1 ..< Suc (length t)])"
proof -
  have "takeWhile p (t @ r) = t"
    using assms by (cases r) (auto simp: takeWhile_append2)
  then show ?thesis by auto
qed

lemma rmatch_spaces_one:
  "r = [] \<or> \<not> is_space (hd r) \<Longrightarrow> rmatch spaces (CHR '' '' # r) caps = [(r, caps)]"
  using rmatch_Plus_run [of "[CHR '' '']" is_space r caps]
  by (simp add: spaces_def is_space_def)

lemma rmatch_quote_opt: "s = [] \<or> \<not> is_quote (hd s) \<Longrightarrow> rmatch quote_opt s caps = [(s, caps)]"
  by (cases s) (auto simp: quote_opt_def)

lemma concat_map_singleton: "concat (map (\<lambda>x. [f x]) xs) = map f xs"
  by (induction xs) auto

lemma concat_map_empty: "(\<And>x. x \<in> set xs \<Longrightarrow> f x = []) \<Longrightarrow> concat (map f xs) = []"
  by (induction xs) auto

lemma rmatch_field_token:
  assumes t: "is_token t" and r: "r = [] \<or> (\<not> is_field_char (hd r) \<and> \<not> is_quote (hd r))"
  shows "rmatch (field_token n) (t @ r) caps
           = map (\<lambda>k. (drop k t @ r, caps(n \<mapsto> take k t))) (rev [1 ..< Suc (length t)])"
proof -
  have q0: "rmatch quote_opt (t @ r) caps = [(t @ r, caps)]"
    using is_token_D [OF t] by (intro rmatch_quote_opt) (cases t, auto)
  have plus: "rmatch (Plus is_field_char) (t @ r) caps
      = map (\<lambda>k. (drop k t @ r, caps)) (rev [1 ..< Suc (length t)])"
    using is_token_D(2) [OF t] r by (intro rmatch_Plus_run) auto
  have grp: "rmatch (Grp n (Plus is_field_char)) (t @ r) caps
      = map (\<lambda>k. (drop k t @ r, caps(n \<mapsto> take k t))) (rev [1 ..< Suc (length t)])"
    unfolding rmatch.simps(7) plus by (auto simp: comp_def)
  have q1: "rmatch quote_opt (drop k t @ r) c = [(drop k t @ r, c)]" for k c
  proof (intro rmatch_quote_opt)
    show "drop k t @ r = [] \<or> \<not> is_quote (hd (drop k t @ r))"
    proof (cases "drop k t = []")
      case True
      with r show ?thesis by auto
    next
      case False
      then have "hd (drop k t) \<in> set t"
        by (meson hd_in_set in_set_dropD)
      with is_token_D(2) [OF t] False show ?thesis
        by (auto simp: is_field_char_def)
    qed
  qed
  show ?thesis
    unfolding field_token_def seqs.simps rmatch.simps(5) q0
    by (simp add: grp q1 comp_def concat_map_singleton del: rmatch.simps)
qed

lemma rmatch_field_then_spaces:
  assumes t: "is_token t" and r: "r = [] \<or> \<not> is_space (hd r)"
  shows "rmatch (Seq (field_token n) (Seq spaces X)) (t @ CHR '' '' # r) caps = rmatch X r (caps(n \<mapsto> t))"
proof -
  have sp: "\<not> is_field_char CHR '' ''" "\<not> is_quote CHR '' ''"
    by (simp_all add: is_field_char_def is_space_def is_quote_def)
  have ft: "rmatch (field_token n) (t @ CHR '' '' # r) caps
      = map (\<lambda>k. (drop k t @ CHR '' '' # r, caps(n \<mapsto> take k t))) (rev [1 ..< Suc (length t)])"
    using sp by (intro rmatch_field_token [OF t]) simp
  have ks: "rev [1 ..< Suc (length t)] = length t # rev [1 ..< length t]"
    using is_token_D(1) [OF t] by (cases t) auto
  have short: "rmatch (Seq spaces X) (drop k t @ CHR '' '' # r) c = []" if "k \<in> set (rev [1 ..< length t])" for k c
  proof -
    from that have "drop k t \<noteq> []" by simp
    then have "hd (drop k t) \<in> set t"
      by (meson hd_in_set in_set_dropD)
    with is_token_D(2) [OF t] have "\<not> is_space (hd (drop k t @ CHR '' '' # r))"
      using \<open>drop k t \<noteq> []\<close> by (auto simp: is_field_char_def)
    then have "rmatch spaces (drop k t @ CHR '' '' # r) c = []"
      unfolding spaces_def by (intro rmatch_Plus_none) simp
    then show ?thesis by simp
  qed
  have full: "rmatch (Seq spaces X) (CHR '' '' # r) c = rmatch X r c" for c
    using rmatch_spaces_one [OF r] by simp
  show ?thesis
    unfolding rmatch.simps(5) [of "field_token n"] ft ks
    using short full by (simp add: comp_def concat_map_empty del: rmatch.simps upt_Suc)
qed

subsection \<open>The pattern "map X to Y"\<close>

lemma map_pattern_unfold:
  "map_pattern = Seq (Lit ''map'') (Seq spaces (Seq (Opt (Seq (Lit ''field'') spaces)) fields_part))"
  by (simp add: map_pattern_def fields_part_def to_field2_def)

lemma lower_literals:
  "toLowerCase ''map'' = ''map''" "toLowerCase ''to'' = ''to''" "is_token ''to''"
  "\<not> is_space CHR ''t''" "is_space CHR '' ''"
  by code_simp+

lemma fields_part_match:
  assumes a: "is_token la" and b: "is_token lb"
  shows "rmatch fields_part (la @ CHR '' '' # ''to'' @ CHR '' '' # lb) caps
           = map (\<lambda>k. (drop k lb, caps(1 \<mapsto> la, 2 \<mapsto> take k lb))) (rev [1 ..< Suc (length lb)])"
proof -
  have 1: "rmatch fields_part (la @ CHR '' '' # ''to'' @ CHR '' '' # lb) caps
             = rmatch to_field2 (''to'' @ CHR '' '' # lb) (caps(1 \<mapsto> la))"
    unfolding fields_part_def using lower_literals(4)
    by (intro rmatch_field_then_spaces [OF a]) simp
  have 2: "rmatch (Lit ''to'') (''to'' @ CHR '' '' # lb) c = [(CHR '' '' # lb, c)]" for c
    by (rule rmatch_Lit_prefix) (rule lower_literals)
  have 3: "rmatch spaces (CHR '' '' # lb) c = [(lb, c)]" for c
    using is_token_D(3) [OF b] by (intro rmatch_spaces_one) simp
  have 4: "rmatch (field_token 2) lb c
             = map (\<lambda>k. (drop k lb, c(2 \<mapsto> take k lb))) (rev [1 ..< Suc (length lb)])" for c
    using rmatch_field_token [OF b, of "[]" 2 c] by simp
  show ?thesis
    unfolding 1 to_field2_def rmatch.simps(5) 2
    by (simp add: 3 4 del: rmatch.simps upt_Suc)
qed

lemma fields_part_fail:
  assumes b: "is_token lb"
  shows "rmatch fields_part (''to'' @ CHR '' '' # lb) caps = []"
proof -
  have 1: "rmatch fields_part (''to'' @ CHR '' '' # lb) caps = rmatch to_field2 lb (caps(1 \<mapsto> ''to''))"
    unfolding fields_part_def using is_token_D(3) [OF b]
    by (intro rmatch_field_then_spaces [OF lower_literals(3)]) simp
  have 2: "rmatch spaces (drop k lb) c = []" for k c
  proof -
    have "drop k lb = [] \<or> \<not> is_space (hd (drop k lb))"
    proof (cases "drop k lb = []")
      case False
      then have "hd (drop k lb) \<in> set lb"
        by (meson hd_in_set in_set_dropD)
      with is_token_D(2) [OF b] show ?thesis
        by (auto simp: is_field_char_def)
    qed simp
    then show ?thesis
      unfolding spaces_def by (rule rmatch_Plus_none)
  qed
  show ?thesis
    unfolding 1 to_field2_def rmatch.simps(5) rmatch.simps(1)
    by (simp add: 2 del: rmatch.simps)
qed

lemma field_word_match:
  assumes a: "is_token la" and m: "toLowerCase (take 5 (la @ CHR '' '' # r)) = ''field''"
  shows "5 \<le> length la"
proof (rule ccontr)
  assume "\<not> 5 \<le> length la"
  then have "CHR '' '' \<in> set (take 5 (la @ CHR '' '' # r))"
    by (auto simp: take_Cons')
  then have "toLowerChar CHR '' '' \<in> set (toLowerCase (take 5 (la @ CHR '' '' # r)))"
    unfolding toLowerCase_def by (metis image_eqI set_map)
  then have "toLowerChar CHR '' '' \<in> set ''field''"
    unfolding m .
  moreover have "is_space (toLowerChar CHR '' '')"
    by (simp add: is_space_toLowerChar lower_literals)
  moreover have "\<not> is_space c" if "c \<in> set ''field''" for c
    using that by (auto simp: is_space_def)
  ultimately show False by blast
qed

lemma rmatch_Lit_field:
  "rmatch (Lit ''field'') s caps =
     (if 5 \<le> length s \<and> toLowerCase (take 5 s) = ''field'' then [(drop 5 s, caps)] else [])"
proof -
  have len: "length ''field'' = 5" by simp
  show ?thesis by (simp only: rmatch.simps toLowerCase_def len)
qed

lemma field_option_fails:
  assumes a: "is_token la" and b: "is_token lb"
  shows "concat (map (\<lambda>(s', c'). rmatch fields_part s' c')
           (rmatch (Seq (Lit ''field'') spaces) (la @ CHR '' '' # ''to'' @ CHR '' '' # lb) caps)) = []"
proof (cases "toLowerCase (take 5 (la @ CHR '' '' # ''to'' @ CHR '' '' # lb)) = ''field''")
  case False
  then have "rmatch (Lit ''field'') (la @ CHR '' '' # ''to'' @ CHR '' '' # lb) caps = []"
    by (simp only: rmatch_Lit_field simp_thms if_False)
  then show ?thesis
    by (simp only: rmatch.simps(5) list.map concat.simps)
next
  case True
  from field_word_match [OF a True] have len: "5 \<le> length la" .
  then have d: "drop 5 (la @ CHR '' '' # ''to'' @ CHR '' '' # lb) = drop 5 la @ CHR '' '' # ''to'' @ CHR '' '' # lb"
    by simp
  from len have l5: "5 \<le> length (la @ CHR '' '' # ''to'' @ CHR '' '' # lb)"
    by simp
  have lit: "rmatch (Lit ''field'') (la @ CHR '' '' # ''to'' @ CHR '' '' # lb) caps
      = [(drop 5 la @ CHR '' '' # ''to'' @ CHR '' '' # lb, caps)]"
    using True l5 by (simp only: rmatch_Lit_field simp_thms if_True d)
  have seq: "rmatch (Seq (Lit ''field'') spaces) (la @ CHR '' '' # ''to'' @ CHR '' '' # lb) caps
      = rmatch spaces (drop 5 la @ CHR '' '' # ''to'' @ CHR '' '' # lb) caps"
    by (simp only: rmatch.simps(5) lit list.map concat.simps prod.case append_Nil2)
  show ?thesis
  proof (cases "drop 5 la = []")
    case True
    have "rmatch spaces (CHR '' '' # ''to'' @ CHR '' '' # lb) caps = [(''to'' @ CHR '' '' # lb, caps)]"
      using lower_literals(4) by (intro rmatch_spaces_one) simp
    then have "rmatch spaces (drop 5 la @ CHR '' '' # ''to'' @ CHR '' '' # lb) caps
        = [(''to'' @ CHR '' '' # lb, caps)]"
      by (simp only: True append_Nil)
    then show ?thesis
      by (simp only: seq list.map concat.simps prod.case append_Nil2 fields_part_fail [OF b])
  next
    case False
    then have "hd (drop 5 la) \<in> set la"
      by (meson hd_in_set in_set_dropD)
    with is_token_D(2) [OF a] False
    have "\<not> is_space (hd (drop 5 la @ CHR '' '' # ''to'' @ CHR '' '' # lb))"
      by (auto simp: is_field_char_def)
    then have "rmatch spaces (drop 5 la @ CHR '' '' # ''to'' @ CHR '' '' # lb) caps = []"
      unfolding spaces_def by (intro rmatch_Plus_none) simp
    then show ?thesis
      by (simp only: seq list.map concat.simps)
  qed
qed

lemma map_pattern_match:
  assumes a: "is_token la" and b: "is_token lb"
  shows "rmatch map_pattern (''map'' @ CHR '' '' # la @ CHR '' '' # ''to'' @ CHR '' '' # lb) caps
           = map (\<lambda>k. (drop k lb, caps(1 \<mapsto> la, 2 \<mapsto> take k lb))) (rev [1 ..< Suc (length lb)])"
proof -
  let ?s2 = "la @ CHR '' '' # ''to'' @ CHR '' '' # lb"
  have 1: "rmatch (Lit ''map'') (''map'' @ CHR '' '' # ?s2) caps = [(CHR '' '' # ?s2, caps)]"
    by (rule rmatch_Lit_prefix) (rule lower_literals)
  have 2: "rmatch spaces (CHR '' '' # ?s2) caps = [(?s2, caps)]"
    using is_token_D [OF a] by (intro rmatch_spaces_one) (cases la, auto)
  have s1: "rmatch (Seq (Lit ''map'') Y) (''map'' @ CHR '' '' # ?s2) caps = rmatch Y (CHR '' '' # ?s2) caps" for Y
    by (simp only: rmatch.simps(5) 1 list.map concat.simps prod.case append_Nil2)
  have s2: "rmatch (Seq spaces Y) (CHR '' '' # ?s2) caps = rmatch Y ?s2 caps" for Y
    by (simp only: rmatch.simps(5) 2 list.map concat.simps prod.case append_Nil2)
  have s3: "rmatch (Seq (Opt (Seq (Lit ''field'') spaces)) fields_part) ?s2 caps = rmatch fields_part ?s2 caps"
    by (simp only: rmatch.simps(4) rmatch.simps(5) [of "Opt (Seq (Lit ''field'') spaces)"]
          map_append concat_append field_option_fails [OF a b]
          list.map concat.simps prod.case append_Nil append_Nil2)
  show ?thesis
    by (simp only: map_pattern_unfold s1 s2 s3 fields_part_match [OF a b])
qed

lemma rsearch_map_pattern:
  assumes a: "is_token la" and b: "is_token lb"
  shows "rsearch map_pattern (''map '' @ la @ '' to '' @ lb) = Some (Map.empty(1 \<mapsto> la, 2 \<mapsto> lb))"
proof -
  have ks: "rev [1 ..< Suc (length lb)] = length lb # rev [1 ..< length lb]"
    using is_token_D(1) [OF b] by (cases lb) auto
  have s: "''map '' @ la @ '' to '' @ lb = ''map'' @ CHR '' '' # la @ CHR '' '' # ''to'' @ CHR '' '' # lb"
    by simp
  have "rsearch map_pattern (''map'' @ CHR '' '' # la @ CHR '' '' # ''to'' @ CHR '' '' # lb)
          = Some (Map.empty(1 \<mapsto> la, 2 \<mapsto> take (length lb) lb))"
    by (subst rsearch.simps) (simp only: map_pattern_match [OF a b] ks list.map list.case prod.case)
  then show ?thesis
    by (simp only: s take_all order_refl)
qed

lemma first_pattern_map:
  assumes a: "is_token la" and b: "is_token lb"
  shows "first_pattern COMMAND_PATTERNS (''map '' @ la @ '' to '' @ lb)
           = Some (Create, \<lparr>ex_sourceField = Some la, ex_targetField = Some lb,
                             ex_transformationType = None, ex_confidence = None\<rparr>)"
  unfolding COMMAND_PATTERNS_def first_pattern.simps rsearch_map_pattern [OF a b]
  by (simp add: extract_source_target_def)

subsection \<open>The two applications\<close>

lemma trim_id: "s \<noteq> [] \<Longrightarrow> \<not> is_space (hd s) \<Longrightarrow> \<not> is_space (last s) \<Longrightarrow> trim s = s"
proof -
  assume s: "s \<noteq> []" and h: "\<not> is_space (hd s)" and l: "\<not> is_space (last s)"
  from s h have 1: "dropWhile is_space s = s" by (cases s) auto
  from s l have 2: "dropWhile is_space (rev s) = rev s"
    by (cases "rev s") (auto simp: last_rev [symmetric] hd_rev simp del: last_rev)
  show ?thesis by (simp add: trim_def 1 2)
qed

lemma map_literals:
  "toLowerCase ''Map '' = ''map ''" "toLowerCase '' to '' = '' to ''" "\<not> is_space CHR ''M''"
  by code_simp+

lemma normalized_instruction:
  assumes a: "is_token a" and b: "is_token b"
  shows "toLowerCase (trim (''Map '' @ a @ '' to '' @ b)) = ''map '' @ toLowerCase a @ '' to '' @ toLowerCase b"
proof -
  have "last (''Map '' @ a @ '' to '' @ b) = last b"
    using is_token_D(1) [OF b] by simp
  then have "trim (''Map '' @ a @ '' to '' @ b) = ''Map '' @ a @ '' to '' @ b"
    using is_token_D(5) [OF b] map_literals(3) by (intro trim_id) simp_all
  moreover have "toLowerCase (''Map '' @ a @ '' to '' @ b)
      = toLowerCase ''Map '' @ toLowerCase a @ toLowerCase '' to '' @ toLowerCase b"
    by (simp add: toLowerCase_def)
  ultimately show ?thesis
    by (simp only: map_literals)
qed

lemma exact_match_lower: "exact_match (toLowerCase t) vocabulary = exact_match t vocabulary"
  by (simp add: exact_match_def toLowerCase_idem)

lemma parse_map:
  assumes a: "is_token a" and b: "is_token b"
    and ea: "exact_match a source = Some a" and eb: "exact_match b target = Some b"
  shows "parseCommand (''Map '' @ a @ '' to '' @ b) source target =
     \<lparr>command = Some \<lparr>cmd_type = Create, sourceField = Some a, targetField = Some b,
          transformationType = None, cmd_confidence = None,
          originalCommand = ''Map '' @ a @ '' to '' @ b\<rparr>,
      parse_confidence = 9 / 10, ambiguities = [], parse_suggestions = []\<rparr>"
proof -
  have fp: "first_pattern COMMAND_PATTERNS (toLowerCase (trim (''Map '' @ a @ '' to '' @ b)))
      = Some (Create, \<lparr>ex_sourceField = Some (toLowerCase a), ex_targetField = Some (toLowerCase b),
                        ex_transformationType = None, ex_confidence = None\<rparr>)"
    unfolding normalized_instruction [OF a b]
    by (rule first_pattern_map) (simp_all add: is_token_toLowerCase a b)
  have ra: "resolve_field ''Source'' (Some (toLowerCase a)) source = (Some a, [], [])"
    by (simp add: resolve_field_eq resolved_def field_ambiguity_def field_suggestion_def
          unresolved_def exact_match_lower ea)
  have rb: "resolve_field ''Target'' (Some (toLowerCase b)) target = (Some b, [], [])"
    by (simp add: resolve_field_eq resolved_def field_ambiguity_def field_suggestion_def
          unresolved_def exact_match_lower eb)
  show ?thesis
    unfolding parseCommand_def Let_def fp
    by (simp add: ra rb validate_confidence_def)
qed

lemma process_map:
  assumes a: "is_token a" and b: "is_token b"
    and ea: "exact_match a source = Some a" and eb: "exact_match b target = Some b"
  shows "processUserInstruction api (''Map '' @ a @ '' to '' @ b)
           \<lparr>ctx_sourceFields = source, ctx_targetFields = target, ctx_currentMappings = cms\<rparr> (idle, w)
         = (fst (executeCommand api (map_command a b) cms w), None, idle,
            snd (executeCommand api (map_command a b) cms w))"
proof -
  obtain r w' where e: "executeCommand api (map_command a b) cms w = (Inr r, w')"
    using executeCommand_caught [of api "map_command a b" cms w] by blast
  have p: "processInstruction api (''Map '' @ a @ '' to '' @ b)
           \<lparr>ctx_sourceFields = source, ctx_targetFields = target, ctx_currentMappings = cms\<rparr> w
         = (Inr r, w')"
    using e parse_map [OF a b ea eb]
    by (simp add: processInstruction_def map_command_def)
  show ?thesis
    using p e
    by (simp add: processUserInstruction_def begin_instruction_def settle_instruction_def idle_def)
qed

lemma execute_new:
  assumes a: "is_token a" and b: "is_token b" and none: "find_active cms a = None"
  shows "executeCommand (zustand_api env) (map_command a b) cms \<lparr>w_store = s, w_calls = n\<rparr>
         = (Inr (succeeded (check_mark @ '' Created mapping: '' @ a @ '' '' @ right_arrow @ '' '' @ b)
                  \<lparr>ch_type = Created, mappingId = Some (env_id env n), ch_sourceField = a,
                   ch_targetField = Some b, details = ''Created new mapping''\<rparr>),
            \<lparr>w_store = s\<lparr>mappings := mappings s @ [created_record env n a b],
                          conflicts := fst (validateMappings (s\<lparr>mappings := mappings s @ [created_record env n a b]\<rparr>))\<rparr>,
             w_calls = Suc n\<rparr>)"
  using is_token_D(1) [OF a] is_token_D(1) [OF b] none
  by (simp add: executeCommand_def executeCommand_try_def execute_create_def map_command_def
        zustand_api_def addMapping_def created_record_def validateMappings_snd Let_def)

lemma execute_existing:
  assumes a: "is_token a" and b: "is_token b" and some: "find_active cms a = Some m"
  shows "executeCommand (zustand_api env) (map_command a b) cms \<lparr>w_store = s, w_calls = n\<rparr>
         = (Inr (succeeded (check_mark @ '' Updated mapping: '' @ a @ '' '' @ right_arrow @ '' '' @ b)
                  \<lparr>ch_type = Updated, mappingId = Some (m_id m), ch_sourceField = a,
                   ch_targetField = Some b,
                   details = ''Updated mapping from '' @ target_field m @ '' to '' @ b\<rparr>),
            \<lparr>w_store = updateMapping (env_now env n) (m_id m) (redirect a b) s, w_calls = Suc n\<rparr>)"
  using is_token_D(1) [OF a] is_token_D(1) [OF b] some
  by (simp add: executeCommand_def executeCommand_try_def execute_create_def map_command_def
        zustand_api_def redirect_def Let_def)

lemma find_active_snoc:
  "find_active cms a = None \<Longrightarrow> source_field m = a \<Longrightarrow> status m = Active
   \<Longrightarrow> find_active (cms @ [m]) a = Some m"
  unfolding find_active_def by (induction cms) (auto split: if_splits)

lemma redirect_created:
  "(spread (created_record env n a b) (redirect a b))\<lparr>updated_at := t, user_modified := True\<rparr>
     = (updated_record env n a b)\<lparr>updated_at := t\<rparr>"
  by (simp add: spread_def redirect_def no_update_def or_else_def created_record_def updated_record_def)

lemma created_id: "m_id (created_record env n a b) = env_id env n"
  by (simp add: created_record_def)

lemma updated_again: "(updated_record env n a b)\<lparr>updated_at := env_now env (Suc n)\<rparr> = updated_record env n a b"
  by (simp add: updated_record_def)

lemma redirect_keeps:
  "status ((spread m (redirect a b))\<lparr>updated_at := t, user_modified := True\<rparr>) = status m"
  "source_field ((spread m (redirect a b))\<lparr>updated_at := t, user_modified := True\<rparr>) = source_field m"
  by (simp_all add: spread_def redirect_def no_update_def or_else_def)

lemma find_active_None: "find_active cms a = None \<Longrightarrow> filter (\<lambda>m. status m = Active \<and> source_field m = a) cms = []"
  by (auto simp: find_active_def find_None_iff filter_empty_conv)

text \<open>
  Claim C2, as the code has it. Let \<open>a\<close> and \<open>b\<close> be field names that a pattern can capture
  (not empty, without white space and quotes), each the first field of its vocabulary that
  equals it up to case, and let the store hold no active mapping of the source field \<open>a\<close>.
  Process "Map a to b" twice, each call with the store's mappings as \<open>currentMappings\<close>
  and the processor idle. The first call succeeds with one change of type created and
  appends one record (direct mapping, confidence 0.85, active, modified by the user). The
  second call succeeds with one change of type updated for that record and adds no
  record: the store then holds exactly one active mapping of the source field \<open>a\<close>, to
  \<open>b\<close>, the created record with a new reasoning and a refreshed \<open>updated_at\<close>; when the
  generated id was new, all other records are as they were.
\<close>

theorem map_twice:
  assumes a: "is_token a" and b: "is_token b"
    and ea: "exact_match a source = Some a" and eb: "exact_match b target = Some b"
    and none: "find_active (mappings s) a = None"
  shows "\<exists>r1 r2 s1 s2.
     run_twice env (''Map '' @ a @ '' to '' @ b) source target s n
       = ((Inr r1, \<lparr>w_store = s1, w_calls = Suc n\<rparr>), (Inr r2, \<lparr>w_store = s2, w_calls = Suc (Suc n)\<rparr>))
     \<and> success r1
     \<and> appliedChanges r1 = [\<lparr>ch_type = Created, mappingId = Some (env_id env n), ch_sourceField = a,
                              ch_targetField = Some b, details = ''Created new mapping''\<rparr>]
     \<and> mappings s1 = mappings s @ [created_record env n a b]
     \<and> success r2
     \<and> appliedChanges r2 = [\<lparr>ch_type = Updated, mappingId = Some (env_id env n), ch_sourceField = a,
                              ch_targetField = Some b,
                              details = ''Updated mapping from '' @ b @ '' to '' @ b\<rparr>]
     \<and> length (mappings s2) = Suc (length (mappings s))
     \<and> filter (\<lambda>m. status m = Active \<and> source_field m = a) (mappings s2) = [updated_record env n a b]
     \<and> (env_id env n \<in> set (map m_id (mappings s))
          \<or> mappings s2 = mappings s @ [updated_record env n a b])
     \<and> map (\<lambda>m. (m_id m, source_field m, target_field m, transformation_type m, confidence m, status m,
                  user_modified m))
          [created_record env n a b, updated_record env n a b]
         = [(env_id env n, a, b, ''direct_mapping'', 85 / 100, Active, True),
            (env_id env n, a, b, ''direct_mapping'', 85 / 100, Active, True)]"
proof -
  let ?instr = "''Map '' @ a @ '' to '' @ b"
  let ?new = "created_record env n a b"
  let ?s1 = "s\<lparr>mappings := mappings s @ [?new],
               conflicts := fst (validateMappings (s\<lparr>mappings := mappings s @ [?new]\<rparr>))\<rparr>"
  let ?s2 = "updateMapping (env_now env (Suc n)) (env_id env n) (redirect a b) ?s1"
  let ?r1 = "succeeded (check_mark @ '' Created mapping: '' @ a @ '' '' @ right_arrow @ '' '' @ b)
               \<lparr>ch_type = Created, mappingId = Some (env_id env n), ch_sourceField = a,
                ch_targetField = Some b, details = ''Created new mapping''\<rparr>"
  let ?r2 = "succeeded (check_mark @ '' Updated mapping: '' @ a @ '' '' @ right_arrow @ '' '' @ b)
               \<lparr>ch_type = Updated, mappingId = Some (env_id env n), ch_sourceField = a,
                ch_targetField = Some b, details = ''Updated mapping from '' @ b @ '' to '' @ b\<rparr>"
  let ?upd = "\<lambda>m. if m_id m = env_id env n
                 then (spread m (redirect a b))\<lparr>updated_at := env_now env (Suc n), user_modified := True\<rparr>
                 else m"
  have first: "processUserInstruction (zustand_api env) ?instr
        \<lparr>ctx_sourceFields = source, ctx_targetFields = target, ctx_currentMappings = mappings s\<rparr>
        (idle, \<lparr>w_store = s, w_calls = n\<rparr>)
      = (Inr ?r1, None, idle, \<lparr>w_store = ?s1, w_calls = Suc n\<rparr>)"
    by (simp only: process_map [OF a b ea eb] execute_new [OF a b none] fst_conv snd_conv)
  have found: "find_active (mappings s @ [?new]) a = Some ?new"
    by (rule find_active_snoc [OF none]) (simp_all add: created_record_def)
  have m1: "mappings ?s1 = mappings s @ [?new]"
    by simp
  have second: "processUserInstruction (zustand_api env) ?instr
        \<lparr>ctx_sourceFields = source, ctx_targetFields = target, ctx_currentMappings = mappings s @ [?new]\<rparr>
        (idle, \<lparr>w_store = ?s1, w_calls = Suc n\<rparr>)
      = (Inr ?r2, None, idle, \<lparr>w_store = ?s2, w_calls = Suc (Suc n)\<rparr>)"
    using execute_existing [OF a b found, of env ?s1 "Suc n"]
    by (simp only: process_map [OF a b ea eb] fst_conv snd_conv)
       (simp add: created_record_def)
  have run: "run_twice env ?instr source target s n
      = ((Inr ?r1, \<lparr>w_store = ?s1, w_calls = Suc n\<rparr>), (Inr ?r2, \<lparr>w_store = ?s2, w_calls = Suc (Suc n)\<rparr>))"
    unfolding run_twice_def first prod.case world.select_convs m1 second ..
  have m2: "mappings ?s2 = map ?upd (mappings s) @ [updated_record env n a b]"
    by (simp add: updateMapping_mappings redirect_created created_id updated_again)
  have pu: "(status (?upd m) = Active \<and> source_field (?upd m) = a) = (status m = Active \<and> source_field m = a)" for m
    by (simp add: redirect_keeps)
  have keep: "filter (\<lambda>m. status m = Active \<and> source_field m = a) (map ?upd (mappings s)) = []"
    by (simp only: filter_map comp_def pu find_active_None [OF none] list.map)
  have one: "filter (\<lambda>m. status m = Active \<and> source_field m = a) (mappings ?s2) = [updated_record env n a b]"
    unfolding m2 filter_append keep
    by (simp add: updated_record_def created_record_def)
  have fresh: "env_id env n \<in> set (map m_id (mappings s))
      \<or> mappings ?s2 = mappings s @ [updated_record env n a b]"
  proof (cases "env_id env n \<in> set (map m_id (mappings s))")
    case False
    then have "map ?upd (mappings s) = mappings s"
      by (intro map_idI) force
    with m2 show ?thesis by simp
  qed simp
  have len: "length (mappings ?s2) = Suc (length (mappings s))"
    unfolding m2 by simp
  have fields: "map (\<lambda>m. (m_id m, source_field m, target_field m, transformation_type m, confidence m, status m,
                  user_modified m))
          [created_record env n a b, updated_record env n a b]
         = [(env_id env n, a, b, ''direct_mapping'', 85 / 100, Active, True),
            (env_id env n, a, b, ''direct_mapping'', 85 / 100, Active, True)]"
    by (simp add: created_record_def updated_record_def)
  show ?thesis
    using run m1 one fresh len fields
    by (intro exI [of _ ?r1] exI [of _ ?r2] exI [of _ ?s1] exI [of _ ?s2])
       (simp add: succeeded_def)
qed

text \<open>
  The claim as stated fails for a field name with a space: with the source field
  \<open>my id\<close> and the target field \<open>x\<close> in the vocabularies and an empty store, "Map my id
  to x" matches no pattern; the call fails, reports no change and creates no mapping.
\<close>

theorem map_twice_counterexample:
  "exact_match ''my id'' [''my id''] = Some ''my id''
   \<and> exact_match ''x'' [''x''] = Some ''x''
   \<and> (case processUserInstruction (zustand_api example_env) ''Map my id to x''
             \<lparr>ctx_sourceFields = [''my id''], ctx_targetFields = [''x''],
              ctx_currentMappings = mappings no_mappings\<rparr>
             (idle, \<lparr>w_store = no_mappings, w_calls = 0\<rparr>) of
        (outcome, timer, p, w) \<Rightarrow> (summary outcome, mappings (w_store w)))
      = (Inr (False, []), [])"
  by code_simp

theorem map_twice_witness:
  "\<exists>r1 r2 s1 s2.
     run_twice example_env (''Map '' @ ''id'' @ '' to '' @ ''user_id'') [''id'', ''name''] [''user_id'', ''full_name'']
         no_mappings 0
       = ((Inr r1, \<lparr>w_store = s1, w_calls = Suc 0\<rparr>), (Inr r2, \<lparr>w_store = s2, w_calls = Suc (Suc 0)\<rparr>))
     \<and> success r1
     \<and> appliedChanges r1 = [\<lparr>ch_type = Created, mappingId = Some (env_id example_env 0), ch_sourceField = ''id'',
                              ch_targetField = Some ''user_id'', details = ''Created new mapping''\<rparr>]
     \<and> mappings s1 = mappings no_mappings @ [created_record example_env 0 ''id'' ''user_id'']
     \<and> success r2
     \<and> appliedChanges r2 = [\<lparr>ch_type = Updated, mappingId = Some (env_id example_env 0), ch_sourceField = ''id'',
                              ch_targetField = Some ''user_id'',
                              details = ''Updated mapping from '' @ ''user_id'' @ '' to '' @ ''user_id''\<rparr>]
     \<and> length (mappings s2) = Suc (length (mappings no_mappings))
     \<and> filter (\<lambda>m. status m = Active \<and> source_field m = ''id'') (mappings s2)
          = [updated_record example_env 0 ''id'' ''user_id'']
     \<and> (env_id example_env 0 \<in> set (map m_id (mappings no_mappings))
          \<or> mappings s2 = mappings no_mappings @ [updated_record example_env 0 ''id'' ''user_id''])
     \<and> map (\<lambda>m. (m_id m, source_field m, target_field m, transformation_type m, confidence m, status m,
                  user_modified m))
          [created_record example_env 0 ''id'' ''user_id'', updated_record example_env 0 ''id'' ''user_id'']
         = [(env_id example_env 0, ''id'', ''user_id'', ''direct_mapping'', 85 / 100, Active, True),
            (env_id example_env 0, ''id'', ''user_id'', ''direct_mapping'', 85 / 100, Active, True)]"
proof (rule map_twice)
  show "is_token ''id''" by code_simp
  show "is_token ''user_id''" by code_simp
  show "exact_match ''id'' [''id'', ''name''] = Some ''id''" by code_simp
  show "exact_match ''user_id'' [''user_id'', ''full_name''] = Some ''user_id''" by code_simp
  show "find_active (mappings no_mappings) ''id'' = None" by code_simp
qed

end
